theory Spec2Isabelle
  imports Complex_Main "HOL-Library.Log_Nat"
begin

section \<open>Data model of \<open>src/App.tsx\<close>\<close>

text \<open>
  The TypeScript type \<open>number\<close> is IEEE binary64. A finite value is modelled by the
  rational number it denotes. The handlers are first given with exact arithmetic, which is
  the code's arithmetic wherever every intermediate value is representable (counting
  quantities, the scenario of the headphones and two watches); the handlers that compute
  money are given a second time with every operation rounded to binary64, in the section on
  binary64 arithmetic below.
\<close>

type_synonym number = rat

text \<open>
  \<open>interface Product\<close> and \<open>interface CartItem extends Product\<close>. The fields \<open>id\<close> and
  \<open>image\<close> of the source are called \<open>pid\<close> and \<open>image_url\<close> here.
\<close>

record Product =
  pid :: number
  name :: string
  price :: number
  image_url :: string
  category :: string

record CartItem = Product +
  quantity :: number

datatype OrderStatus = Pending | Shipped | Delivered | Returned

text \<open>
  \<open>interface Order\<close>; the fields \<open>id\<close> and \<open>total\<close> of the source are called
  \<open>order_id\<close> and \<open>order_total\<close> here.
\<close>

record Order =
  order_id :: string
  date :: string
  items :: "CartItem list"
  order_total :: number
  status :: OrderStatus

record Coupon =
  code :: string
  discount :: number
  isActive :: bool

text \<open>The form state \<open>newCoupon\<close>: both fields are the strings typed by the administrator.\<close>

record NewCouponForm =
  form_code :: string
  form_discount :: string

text \<open>The \<open>useState\<close> cells of the component \<open>App\<close> that the commerce handlers read or write.\<close>

record AppState =
  products :: "Product list"
  cart :: "CartItem list"
  wishlist :: "number list"
  orders :: "Order list"
  coupons :: "Coupon list"
  appliedCoupon :: "Coupon option"
  couponInput :: string
  couponError :: string
  isCartOpen :: bool
  showCheckoutSuccess :: bool
  isCartBouncing :: bool
  revenue :: number
  totalOrders :: number
  newCoupon :: NewCouponForm

definition INITIAL_PRODUCTS :: "Product list" where
  "INITIAL_PRODUCTS =
    [\<lparr>pid = 1, name = ''Premium Wireless Headphones'', price = 12999,
       image_url = ''https://picsum.photos/seed/headphones/400/400'', category = ''Electronics''\<rparr>,
     \<lparr>pid = 2, name = ''Minimalist Leather Watch'', price = 4500,
       image_url = ''https://picsum.photos/seed/watch/400/400'', category = ''Accessories''\<rparr>,
     \<lparr>pid = 3, name = ''Smart Fitness Tracker'', price = 2999,
       image_url = ''https://picsum.photos/seed/tracker/400/400'', category = ''Electronics''\<rparr>,
     \<lparr>pid = 4, name = ''Ergonomic Coffee Mug'', price = 899,
       image_url = ''https://picsum.photos/seed/mug/400/400'', category = ''Home''\<rparr>,
     \<lparr>pid = 5, name = ''Organic Cotton T-Shirt'', price = 1200,
       image_url = ''https://picsum.photos/seed/tshirt/400/400'', category = ''Apparel''\<rparr>]"

definition initial_state :: AppState where
  "initial_state =
    \<lparr>products = INITIAL_PRODUCTS, cart = [], wishlist = [], orders = [],
     coupons = [\<lparr>code = ''WELCOME10'', discount = 10, isActive = True\<rparr>],
     appliedCoupon = None, couponInput = [], couponError = [],
     isCartOpen = False, showCheckoutSuccess = False, isCartBouncing = False,
     revenue = 0, totalOrders = 0,
     newCoupon = \<lparr>form_code = [], form_discount = []\<rparr>\<rparr>"

section \<open>Derived values: the pricing engine\<close>

text \<open>\<open>cart.reduce((sum, item) => sum + (item.price * item.quantity), 0)\<close>\<close>

definition subtotal :: "CartItem list \<Rightarrow> number" where
  "subtotal c = foldl (\<lambda>sum item. sum + price item * quantity item) 0 c"

text \<open>\<open>if (!appliedCoupon) return 0; return (subtotal * appliedCoupon.discount) / 100;\<close>\<close>

definition discountAmount :: "number \<Rightarrow> Coupon option \<Rightarrow> number" where
  "discountAmount sub ac =
     (case ac of None \<Rightarrow> 0 | Some coupon \<Rightarrow> (sub * discount coupon) / 100)"

definition cartTotal :: "AppState \<Rightarrow> number" where
  "cartTotal s = subtotal (cart s) - discountAmount (subtotal (cart s)) (appliedCoupon s)"

section \<open>Cart actions\<close>

text \<open>
  \<open>addToCart\<close> raises the bounce flag and updates the cart; the timer that lowers the flag
  300 ms later is the separate step \<open>bounceTimeout\<close>.
\<close>

definition addToCart :: "Product \<Rightarrow> AppState \<Rightarrow> AppState" where
  "addToCart product s =
     s\<lparr>isCartBouncing := True,
       cart :=
         (case find (\<lambda>item. pid item = pid product) (cart s) of
            Some existingItem \<Rightarrow>
              map (\<lambda>item. if pid item = pid product
                           then item\<lparr>quantity := quantity item + 1\<rparr> else item) (cart s)
          | None \<Rightarrow>
              cart s @ [\<lparr>pid = pid product, name = name product, price = price product,
                         image_url = image_url product, category = category product,
                         quantity = 1\<rparr>])\<rparr>"

definition bounceTimeout :: "AppState \<Rightarrow> AppState" where
  "bounceTimeout s = s\<lparr>isCartBouncing := False\<rparr>"

definition removeFromCart :: "number \<Rightarrow> AppState \<Rightarrow> AppState" where
  "removeFromCart productId s = s\<lparr>cart := filter (\<lambda>item. pid item \<noteq> productId) (cart s)\<rparr>"

definition updateQuantity :: "number \<Rightarrow> number \<Rightarrow> AppState \<Rightarrow> AppState" where
  "updateQuantity productId delta s =
     s\<lparr>cart :=
         map (\<lambda>item. if pid item = productId
                      then (let newQuantity = max 1 (quantity item + delta)
                            in item\<lparr>quantity := newQuantity\<rparr>)
                      else item) (cart s)\<rparr>"

section \<open>Checkout and the order ledger\<close>

text \<open>
  The order identifier comes from \<open>Math.random\<close> and the date from the clock: both are
  arguments of the model. The timer set by \<open>checkout\<close> is the separate step
  \<open>checkoutTimeout\<close>.
\<close>

definition checkout :: "string \<Rightarrow> string \<Rightarrow> AppState \<Rightarrow> AppState" where
  "checkout newId now s =
     (if length (cart s) = 0 then s
      else
        (let orderTotal = cartTotal s;
             newOrder = \<lparr>order_id = newId, date = now, items = cart s,
                         order_total = orderTotal, status = Pending\<rparr>
         in s\<lparr>orders := newOrder # orders s,
               revenue := revenue s + orderTotal,
               totalOrders := totalOrders s + 1,
               showCheckoutSuccess := True,
               cart := []\<rparr>))"

definition checkoutTimeout :: "AppState \<Rightarrow> AppState" where
  "checkoutTimeout s = s\<lparr>showCheckoutSuccess := False, isCartOpen := False\<rparr>"

definition updateOrderStatus :: "string \<Rightarrow> OrderStatus \<Rightarrow> AppState \<Rightarrow> AppState" where
  "updateOrderStatus orderId newStatus s =
     s\<lparr>orders := map (\<lambda>order. if order_id order = orderId
                                then order\<lparr>status := newStatus\<rparr> else order) (orders s)\<rparr>"

text \<open>
  The customer's Return button of the order at position \<open>i\<close> of the list is rendered only
  under \<open>order.status === 'Delivered'\<close> and calls \<open>updateOrderStatus(order.id, 'Returned')\<close>.
  Where no button is rendered there is nothing to click, and the state stays as it is.
\<close>

definition customerReturn :: "nat \<Rightarrow> AppState \<Rightarrow> AppState" where
  "customerReturn i s =
     (if i < length (orders s) \<and> status (orders s ! i) = Delivered
      then updateOrderStatus (order_id (orders s ! i)) Returned s
      else s)"

section \<open>Coupons\<close>

text \<open>
  \<open>String.prototype.toUpperCase\<close> on ASCII strings (every character below 128): \<open>a\<close> to
  \<open>z\<close> (codes 97 to 122) move down by 32, every other character stays. Strings with
  characters outside ASCII, where the platform applies the Unicode case mapping, are outside
  this definition's reach; \<open>is_ascii\<close> marks the strings it covers.
\<close>

definition toUpperChar :: "char \<Rightarrow> char" where
  "toUpperChar c =
     (if 97 \<le> (of_char c :: nat) \<and> (of_char c :: nat) \<le> 122
      then char_of ((of_char c :: nat) - 32) else c)"

definition toUpperCase :: "string \<Rightarrow> string" where
  "toUpperCase str = map toUpperChar str"





definition setCouponInput :: "string \<Rightarrow> AppState \<Rightarrow> AppState" where
  "setCouponInput v s = s\<lparr>couponInput := v\<rparr>"

text \<open>
  \<open>handleApplyCoupon\<close> with the platform's \<open>toUpperCase\<close> as the argument \<open>upper\<close>: the
  handler's own steps are the lookup with \<open>find\<close> and the two branches.
\<close>

definition handleApplyCouponWith :: "(string \<Rightarrow> string) \<Rightarrow> AppState \<Rightarrow> AppState" where
  "handleApplyCouponWith upper s =
     (case find (\<lambda>c. upper (code c) = upper (couponInput s) \<and> isActive c) (coupons s) of
        Some coupon \<Rightarrow> s\<lparr>appliedCoupon := Some coupon, couponError := [], couponInput := []\<rparr>
      | None \<Rightarrow> s\<lparr>couponError := ''Invalid or inactive coupon code''\<rparr>)"

definition handleApplyCoupon :: "AppState \<Rightarrow> AppState" where
  "handleApplyCoupon s = handleApplyCouponWith toUpperCase s"

text \<open>The button beside the applied coupon: \<open>setAppliedCoupon(null)\<close>.\<close>

definition removeAppliedCoupon :: "AppState \<Rightarrow> AppState" where
  "removeAppliedCoupon s = s\<lparr>appliedCoupon := None\<rparr>"

definition setNewCouponCode :: "string \<Rightarrow> AppState \<Rightarrow> AppState" where
  "setNewCouponCode v s = s\<lparr>newCoupon := (newCoupon s)\<lparr>form_code := v\<rparr>\<rparr>"

definition setNewCouponDiscount :: "string \<Rightarrow> AppState \<Rightarrow> AppState" where
  "setNewCouponDiscount v s = s\<lparr>newCoupon := (newCoupon s)\<lparr>form_discount := v\<rparr>\<rparr>"

text \<open>
  \<open>handleAddCoupon\<close>: the empty string is the only falsy value of the two form fields.
  JavaScript's conversion \<open>Number(...)\<close> of the discount field is the argument \<open>toNumber\<close>.
\<close>

definition handleAddCoupon :: "(string \<Rightarrow> number) \<Rightarrow> AppState \<Rightarrow> AppState" where
  "handleAddCoupon toNumber s =
     (if form_code (newCoupon s) = [] \<or> form_discount (newCoupon s) = [] then s
      else
        (let coupon = \<lparr>code = toUpperCase (form_code (newCoupon s)),
                       discount = toNumber (form_discount (newCoupon s)),
                       isActive = True\<rparr>
         in s\<lparr>coupons := coupons s @ [coupon],
               newCoupon := \<lparr>form_code = [], form_discount = []\<rparr>\<rparr>))"

definition toggleCouponStatus :: "string \<Rightarrow> AppState \<Rightarrow> AppState" where
  "toggleCouponStatus cd s =
     s\<lparr>coupons := map (\<lambda>c. if code c = cd then c\<lparr>isActive := \<not> isActive c\<rparr> else c)
                       (coupons s)\<rparr>"

definition deleteCoupon :: "string \<Rightarrow> AppState \<Rightarrow> AppState" where
  "deleteCoupon cd s = s\<lparr>coupons := filter (\<lambda>c. code c \<noteq> cd) (coupons s)\<rparr>"

section \<open>Wishlist and catalog\<close>

definition toggleWishlist :: "number \<Rightarrow> AppState \<Rightarrow> AppState" where
  "toggleWishlist productId s =
     s\<lparr>wishlist :=
         (if productId \<in> set (wishlist s)
          then filter (\<lambda>i. i \<noteq> productId) (wishlist s)
          else wishlist s @ [productId])\<rparr>"

definition deleteProduct :: "number \<Rightarrow> AppState \<Rightarrow> AppState" where
  "deleteProduct i s = s\<lparr>products := filter (\<lambda>p. pid p \<noteq> i) (products s)\<rparr>"

section \<open>The session as a sequence of actions\<close>

text \<open>
  One constructor for each handler above. The handlers left out (view switch, search box,
  administrator login, the new-product form) write none of the cells of \<open>AppState\<close> except
  \<open>products\<close>.
\<close>

datatype Action =
    AddToCart Product
  | BounceTimeout
  | RemoveFromCart number
  | UpdateQuantity number number
  | Checkout string string
  | CheckoutTimeout
  | AdminSetStatus string OrderStatus
  | CustomerReturn nat
  | SetCouponInput string
  | HandleApplyCoupon
  | RemoveAppliedCoupon
  | SetNewCouponCode string
  | SetNewCouponDiscount string
  | HandleAddCoupon
  | ToggleCouponStatus string
  | DeleteCoupon string
  | ToggleWishlist number
  | DeleteProduct number
  | SetIsCartOpen bool

fun step :: "(string \<Rightarrow> number) \<Rightarrow> Action \<Rightarrow> AppState \<Rightarrow> AppState" where
  "step toNumber (AddToCart p) s = addToCart p s"
| "step toNumber BounceTimeout s = bounceTimeout s"
| "step toNumber (RemoveFromCart i) s = removeFromCart i s"
| "step toNumber (UpdateQuantity i d) s = updateQuantity i d s"
| "step toNumber (Checkout newId now) s = checkout newId now s"
| "step toNumber CheckoutTimeout s = checkoutTimeout s"
| "step toNumber (AdminSetStatus i st) s = updateOrderStatus i st s"
| "step toNumber (CustomerReturn i) s = customerReturn i s"
| "step toNumber (SetCouponInput v) s = setCouponInput v s"
| "step toNumber HandleApplyCoupon s = handleApplyCoupon s"
| "step toNumber RemoveAppliedCoupon s = removeAppliedCoupon s"
| "step toNumber (SetNewCouponCode v) s = setNewCouponCode v s"
| "step toNumber (SetNewCouponDiscount v) s = setNewCouponDiscount v s"
| "step toNumber HandleAddCoupon s = handleAddCoupon toNumber s"
| "step toNumber (ToggleCouponStatus cd) s = toggleCouponStatus cd s"
| "step toNumber (DeleteCoupon cd) s = deleteCoupon cd s"
| "step toNumber (ToggleWishlist i) s = toggleWishlist i s"
| "step toNumber (DeleteProduct i) s = deleteProduct i s"
| "step toNumber (SetIsCartOpen b) s = s\<lparr>isCartOpen := b\<rparr>"

definition run :: "(string \<Rightarrow> number) \<Rightarrow> Action list \<Rightarrow> AppState \<Rightarrow> AppState" where
  "run toNumber acts s = foldl (\<lambda>st a. step toNumber a st) s acts"

text \<open>
  \<open>Number(...)\<close> on a string of decimal digits, for the concrete sessions below:
  \<open>Number("150") = 150\<close>.
\<close>

definition decimalNumber :: "string \<Rightarrow> number" where
  "decimalNumber str = foldl (\<lambda>acc c. 10 * acc + of_nat (of_char c - 48)) 0 str"

text \<open>
  The session of the pricing scenario: headphones once, the watch twice, then the coupon
  \<open>WELCOME10\<close> typed in lower case and applied.
\<close>

definition scenario_state :: AppState where
  "scenario_state =
     run decimalNumber
       [AddToCart (INITIAL_PRODUCTS ! 0), AddToCart (INITIAL_PRODUCTS ! 1),
        AddToCart (INITIAL_PRODUCTS ! 1), SetCouponInput ''welcome10'', HandleApplyCoupon]
       initial_state"

text \<open>
  A session in which the administrator registers a coupon of 150 percent and the shopper
  applies it to a cart holding the headphones.
\<close>

definition oversized_coupon_state :: AppState where
  "oversized_coupon_state =
     run decimalNumber
       [SetNewCouponCode ''big'', SetNewCouponDiscount ''150'', HandleAddCoupon,
        AddToCart (INITIAL_PRODUCTS ! 0), SetCouponInput ''BIG'', HandleApplyCoupon]
       initial_state"

text \<open>The headphones added three times: one cart line of quantity 3.\<close>

definition three_headphones_state :: AppState where
  "three_headphones_state =
     run decimalNumber
       [AddToCart (INITIAL_PRODUCTS ! 0), AddToCart (INITIAL_PRODUCTS ! 0),
        AddToCart (INITIAL_PRODUCTS ! 0)]
       initial_state"



text \<open>The administrator registers the code \<open>welcome10\<close> although \<open>WELCOME10\<close> is registered.\<close>

definition duplicate_coupon_state :: AppState where
  "duplicate_coupon_state =
     run decimalNumber
       [SetNewCouponCode ''welcome10'', SetNewCouponDiscount ''10'', HandleAddCoupon]
       initial_state"

text \<open>The registry's codes after normalization, in registry order.\<close>

definition normalized_codes :: "AppState \<Rightarrow> string list" where
  "normalized_codes s = map (\<lambda>c. toUpperCase (code c)) (coupons s)"

text \<open>The actions that touch the applied coupon or the coupon registry.\<close>

fun is_coupon_action :: "Action \<Rightarrow> bool" where
  "is_coupon_action (SetCouponInput v) = True"
| "is_coupon_action HandleApplyCoupon = True"
| "is_coupon_action RemoveAppliedCoupon = True"
| "is_coupon_action (SetNewCouponCode v) = True"
| "is_coupon_action (SetNewCouponDiscount v) = True"
| "is_coupon_action HandleAddCoupon = True"
| "is_coupon_action (ToggleCouponStatus cd) = True"
| "is_coupon_action (DeleteCoupon cd) = True"
| "is_coupon_action _ = False"

section \<open>Binary64 arithmetic\<close>

text \<open>
  Every sum, difference, product and quotient of the code is the exact result rounded to the
  nearest binary64 value, ties to even. A result that is not finite (an overflow to an
  infinity, or \<open>NaN\<close>) is \<open>None\<close> and stays \<open>None\<close> through every later operation: no
  operation of the handlers below leads from a non-finite value back to a finite one. The
  sign of zero is not modelled.
\<close>

definition pow2 :: "int \<Rightarrow> rat" where
  "pow2 k = (if 0 \<le> k then 2 ^ nat k else 1 / 2 ^ nat (- k))"

text \<open>
  The binary exponent \<open>e\<close> of a positive \<open>x\<close>, with \<open>2^e \<le> x < 2^(e+1)\<close>: the difference
  of the bit lengths of numerator and denominator, or one less.
\<close>

definition exponent2 :: "rat \<Rightarrow> int" where
  "exponent2 x =
     (let d = bitlen (fst (quotient_of x)) - bitlen (snd (quotient_of x))
      in if pow2 d \<le> x then d else d - 1)"

definition round_half_even :: "rat \<Rightarrow> int" where
  "round_half_even y =
     (let f = \<lfloor>y\<rfloor>; d = y - of_int f
      in if d < 1 / 2 then f else if 1 / 2 < d then f + 1 else if even f then f else f + 1)"

text \<open>
  Rounding to binary64: 53 significant bits, so the unit is \<open>2^(e-52)\<close>; below the least
  normal exponent \<open>-1022\<close> the unit stays \<open>2^(-1074)\<close>; a rounded magnitude that reaches
  \<open>2^1024\<close> is an overflow.
\<close>

definition round64 :: "rat \<Rightarrow> rat option" where
  "round64 x =
     (if x = 0 then Some 0
      else
        (let a = \<bar>x\<bar>;
             e = max (exponent2 a) (- 1022);
             u = pow2 (e - 52);
             r = of_int (round_half_even (a / u)) * u
         in if r < pow2 1024 then Some (sgn x * r) else None))"

definition fadd :: "rat \<Rightarrow> rat \<Rightarrow> rat option" where "fadd x y = round64 (x + y)"
definition fsub :: "rat \<Rightarrow> rat \<Rightarrow> rat option" where "fsub x y = round64 (x - y)"
definition fmul :: "rat \<Rightarrow> rat \<Rightarrow> rat option" where "fmul x y = round64 (x * y)"
definition fdiv :: "rat \<Rightarrow> rat \<Rightarrow> rat option" where
  "fdiv x y = (if y = 0 then None else round64 (x / y))"

text \<open>
  The pricing engine (lines 99 to 104) and \<open>checkout\<close> (lines 138 to 160) with that
  arithmetic. \<open>reduce\<close> adds the line amounts from left to right.
\<close>

definition subtotal64 :: "CartItem list \<Rightarrow> number option" where
  "subtotal64 c =
     foldl (\<lambda>sum item.
              Option.bind sum (\<lambda>a.
                Option.bind (fmul (price item) (quantity item)) (\<lambda>m. fadd a m)))
           (Some 0) c"

definition discountAmount64 :: "number \<Rightarrow> Coupon option \<Rightarrow> number option" where
  "discountAmount64 sub ac =
     (case ac of
        None \<Rightarrow> Some 0
      | Some coupon \<Rightarrow> Option.bind (fmul sub (discount coupon)) (\<lambda>p. fdiv p 100))"

definition cartTotal64 :: "AppState \<Rightarrow> number option" where
  "cartTotal64 s =
     Option.bind (subtotal64 (cart s)) (\<lambda>sub.
       Option.bind (discountAmount64 sub (appliedCoupon s)) (\<lambda>d. fsub sub d))"

definition checkout64 :: "string \<Rightarrow> string \<Rightarrow> AppState \<Rightarrow> AppState option" where
  "checkout64 newId now s =
     (if length (cart s) = 0 then Some s
      else
        Option.bind (cartTotal64 s) (\<lambda>orderTotal.
          Option.bind (fadd (revenue s) orderTotal) (\<lambda>newRevenue.
            Option.bind (fadd (totalOrders s) 1) (\<lambda>newTotalOrders.
              Some (s\<lparr>orders := \<lparr>order_id = newId, date = now, items = cart s,
                                    order_total = orderTotal, status = Pending\<rparr> # orders s,
                      revenue := newRevenue,
                      totalOrders := newTotalOrders,
                      showCheckoutSuccess := True,
                      cart := []\<rparr>)))))"

text \<open>
  A session with \<open>checkout\<close> in binary64; the other handlers do no arithmetic on money and
  are those of \<open>step\<close> (the quantities they count are far below \<open>2^53\<close>, where adding 1 is
  exact).
\<close>

fun step64 :: "(string \<Rightarrow> number) \<Rightarrow> Action \<Rightarrow> AppState \<Rightarrow> AppState option" where
  "step64 toNumber (Checkout newId now) s = checkout64 newId now s"
| "step64 toNumber a s = Some (step toNumber a s)"

definition run64 :: "(string \<Rightarrow> number) \<Rightarrow> Action list \<Rightarrow> AppState \<Rightarrow> AppState option" where
  "run64 toNumber acts s = foldl (\<lambda>st a. Option.bind st (step64 toNumber a)) (Some s) acts"

text \<open>
  The sum of the totals of all orders placed and their count, as the code's arithmetic
  computes them: one order after the other in order of placement (the ledger is newest
  first), each addition rounded to binary64.
\<close>

definition ledger_sum64 :: "Order list \<Rightarrow> number option" where
  "ledger_sum64 os =
     foldr (\<lambda>t acc. Option.bind acc (\<lambda>r. fadd r t)) (map order_total os) (Some 0)"

definition ledger_count64 :: "Order list \<Rightarrow> number option" where
  "ledger_count64 os =
     foldr (\<lambda>t acc. Option.bind acc (\<lambda>n. fadd n 1)) (map order_total os) (Some 0)"

text \<open>
  The shopper applies \<open>WELCOME10\<close>, buys the headphones, then the mug: two orders with
  totals 11699.1 and 809.1.
\<close>

definition coupon_orders_state64 :: "AppState option" where
  "coupon_orders_state64 =
     run64 decimalNumber
       [SetCouponInput ''WELCOME10'', HandleApplyCoupon,
        AddToCart (INITIAL_PRODUCTS ! 0), Checkout ''ORD-K3J9X0Q2A'' ''1/1/2026, 10:00:00 AM'',
        AddToCart (INITIAL_PRODUCTS ! 3), Checkout ''ORD-7HB2M4ZP1'' ''2/1/2026, 9:30:00 AM'']
       initial_state"

text \<open>
  Two orders without a coupon; the first is then delivered and returned by the customer (it
  is the second entry of the ledger, since new orders are put in front).
\<close>

definition two_orders_state64 :: "AppState option" where
  "two_orders_state64 =
     run64 decimalNumber
       [AddToCart (INITIAL_PRODUCTS ! 0), Checkout ''ORD-K3J9X0Q2A'' ''1/1/2026, 10:00:00 AM'',
        AddToCart (INITIAL_PRODUCTS ! 1), Checkout ''ORD-7HB2M4ZP1'' ''2/1/2026, 9:30:00 AM'',
        AdminSetStatus ''ORD-K3J9X0Q2A'' Delivered, CustomerReturn 1]
       initial_state"

text \<open>
  The administrator registers a coupon of 100 percent, the catalog holds a product priced
  987296787172182, and the shopper applies the coupon to a cart holding that product.
\<close>

definition large_price_state :: AppState where
  "large_price_state =
     run decimalNumber
       [SetNewCouponCode ''all'', SetNewCouponDiscount ''100'', HandleAddCoupon,
        AddToCart \<lparr>pid = 1767225600000, name = ''Estate'', price = 987296787172182,
                   image_url = ''https://picsum.photos/seed/1767225600000/400/400'',
                   category = ''Home''\<rparr>,
        SetCouponInput ''ALL'', HandleApplyCoupon]
       initial_state"

text \<open>The watch in the cart with \<open>WELCOME10\<close> applied: 10 percent of 4500 is the integer 450.\<close>

definition watch_coupon_state :: AppState where
  "watch_coupon_state =
     run decimalNumber
       [AddToCart (INITIAL_PRODUCTS ! 1), SetCouponInput ''welcome10'', HandleApplyCoupon]
       initial_state"

text \<open>
  A product priced \<open>2^1023\<close> added twice: the line amount \<open>2^1024\<close> is beyond the largest
  binary64 value.
\<close>

definition overflow_state :: AppState where
  "overflow_state =
     run decimalNumber
       [AddToCart \<lparr>pid = 1767225600001, name = ''Tower'', price = 2 ^ 1023,
                   image_url = ''https://picsum.photos/seed/1767225600001/400/400'',
                   category = ''Home''\<rparr>,
        AddToCart \<lparr>pid = 1767225600001, name = ''Tower'', price = 2 ^ 1023,
                   image_url = ''https://picsum.photos/seed/1767225600001/400/400'',
                   category = ''Home''\<rparr>,
        SetCouponInput ''WELCOME10'', HandleApplyCoupon]
       initial_state"

section \<open>Auxiliary facts\<close>

lemma handleApplyCoupon_unfold:
  "handleApplyCoupon s =
     (case find (\<lambda>c. toUpperCase (code c) = toUpperCase (couponInput s) \<and> isActive c)
                (coupons s) of
        Some coupon \<Rightarrow> s\<lparr>appliedCoupon := Some coupon, couponError := [], couponInput := []\<rparr>
      | None \<Rightarrow> s\<lparr>couponError := ''Invalid or inactive coupon code''\<rparr>)"
  by (simp add: handleApplyCoupon_def handleApplyCouponWith_def)

lemma scenario_state_eval:
  "scenario_state = initial_state\<lparr>isCartBouncing := True,
     cart := [\<lparr>pid = 1, name = ''Premium Wireless Headphones'', price = 12999,
                image_url = ''https://picsum.photos/seed/headphones/400/400'',
                category = ''Electronics'', quantity = 1\<rparr>,
              \<lparr>pid = 2, name = ''Minimalist Leather Watch'', price = 4500,
                image_url = ''https://picsum.photos/seed/watch/400/400'',
                category = ''Accessories'', quantity = 2\<rparr>],
     appliedCoupon := Some \<lparr>code = ''WELCOME10'', discount = 10, isActive = True\<rparr>\<rparr>"
  by code_simp



lemma scenario_cartTotal: "cartTotal scenario_state = 197991 / 10"
  by code_simp

lemma oversized_cartTotal: "cartTotal oversized_coupon_state = - (12999 / 2)"
  by code_simp

lemma three_headphones_cart:
  "cart three_headphones_state
     = [\<lparr>pid = 1, name = ''Premium Wireless Headphones'', price = 12999,
          image_url = ''https://picsum.photos/seed/headphones/400/400'',
          category = ''Electronics'', quantity = 3\<rparr>]"
  by code_simp

lemma headphones_eval:
  "INITIAL_PRODUCTS ! 0
     = \<lparr>pid = 1, name = ''Premium Wireless Headphones'', price = 12999,
         image_url = ''https://picsum.photos/seed/headphones/400/400'',
         category = ''Electronics''\<rparr>"
  by (simp add: INITIAL_PRODUCTS_def)

lemma run_Nil: "run toNumber [] s = s"
  by (simp add: run_def)

lemma run_Cons: "run toNumber (a # acts) s = run toNumber acts (step toNumber a s)"
  by (simp add: run_def)

lemma checkout_orders_nonempty:
  "cart s \<noteq> [] \<Longrightarrow>
   orders (checkout newId now s)
     = \<lparr>order_id = newId, date = now, items = cart s,
         order_total = cartTotal s, status = Pending\<rparr> # orders s"
  by (simp add: checkout_def Let_def)

section \<open>Facts about binary64 rounding\<close>

lemma pow2_powi: "pow2 k = 2 powi k"
proof (cases "0 \<le> k")
  case True
  then show ?thesis by (simp add: pow2_def power_int_def)
next
  case False
  then have "pow2 k = 1 / 2 ^ nat (- k)"
    by (simp add: pow2_def)
  also have "\<dots> = inverse ((2::rat) ^ nat (- k))"
    by (simp only: inverse_eq_divide)
  also have "\<dots> = inverse (2::rat) ^ nat (- k)"
    by (simp only: power_inverse)
  also have "\<dots> = 2 powi k"
    using False by (simp only: power_int_def if_False)
  finally show ?thesis .
qed

lemma pow2_pos: "0 < pow2 k"
  by (simp add: pow2_powi)

lemma pow2_add: "pow2 (a + b) = pow2 a * pow2 b"
  by (simp add: pow2_powi power_int_add)

lemma pow2_mono: "a \<le> b \<Longrightarrow> pow2 a \<le> pow2 b"
  by (simp add: pow2_powi power_int_increasing)

lemma pow2_strict_mono: "a < b \<Longrightarrow> pow2 a < pow2 b"
  by (simp add: pow2_powi power_int_strict_increasing)

lemma pow2_le_imp_le: "pow2 a \<le> pow2 b \<Longrightarrow> a \<le> b"
  using pow2_strict_mono [of b a] by (cases "a \<le> b") auto

lemma bitlen_pow2_bounds:
  assumes "0 < p"
  shows "pow2 (bitlen p - 1) \<le> of_int p \<and> of_int p < pow2 (bitlen p)"
proof -
  from bitlen_bounds [OF assms]
  have lo: "(2::int) ^ nat (bitlen p - 1) \<le> p" and hi: "p < 2 ^ nat (bitlen p)"
    by simp_all
  from assms have b1: "1 \<le> bitlen p"
    by (auto simp: bitlen_alt_def)
  from lo have "(of_int ((2::int) ^ nat (bitlen p - 1)) :: rat) \<le> of_int p"
    by (simp only: of_int_le_iff)
  then have l: "pow2 (bitlen p - 1) \<le> of_int p"
    using b1 by (simp add: pow2_def)
  from hi have "(of_int p :: rat) < of_int ((2::int) ^ nat (bitlen p))"
    by (simp only: of_int_less_iff)
  then have h: "of_int p < pow2 (bitlen p)"
    using b1 by (simp add: pow2_def)
  from l h show ?thesis by simp
qed

lemma exponent2_bounds:
  assumes "0 < x"
  shows "pow2 (exponent2 x) \<le> x \<and> x < pow2 (exponent2 x + 1)"
proof -
  obtain p q where pq: "quotient_of x = (p, q)"
    by (cases "quotient_of x")
  then have q: "0 < q"
    by (rule quotient_of_denom_pos)
  from pq have x: "x = of_int p / of_int q"
    by (rule quotient_of_div)
  with assms q have p: "0 < p"
    by (simp add: zero_less_divide_iff)
  from x q have xq: "x * of_int q = of_int p"
    by simp
  let ?d = "bitlen p - bitlen q"
  note bp = bitlen_pow2_bounds [OF p] and bq = bitlen_pow2_bounds [OF q]
  have qpos: "(0::rat) < of_int q" using q by simp
  have upper: "x < pow2 (?d + 1)"
  proof (rule ccontr)
    assume "\<not> x < pow2 (?d + 1)"
    then have "pow2 (?d + 1) \<le> x" by simp
    then have "pow2 (?d + 1) * pow2 (bitlen q - 1) \<le> x * of_int q"
      using bq pow2_pos [of "bitlen q - 1"] assms
      by (intro mult_mono) simp_all
    then have "pow2 (bitlen p) \<le> of_int p"
      by (simp add: xq pow2_add [symmetric])
    with bp show False by simp
  qed
  have lower: "pow2 (?d - 1) \<le> x"
  proof (rule ccontr)
    assume "\<not> pow2 (?d - 1) \<le> x"
    then have "x < pow2 (?d - 1)" by simp
    then have "x * of_int q < pow2 (?d - 1) * of_int q"
      using qpos by simp
    also have "\<dots> \<le> pow2 (?d - 1) * pow2 (bitlen q)"
      using bq pow2_pos [of "?d - 1"] by simp
    finally have "of_int p < pow2 (bitlen p - 1)"
      by (simp add: xq pow2_add [symmetric])
    with bp show False by simp
  qed
  show ?thesis
  proof (cases "pow2 ?d \<le> x")
    case True
    then have "exponent2 x = ?d"
      by (simp add: exponent2_def pq Let_def)
    with True upper show ?thesis by simp
  next
    case False
    then have "exponent2 x = ?d - 1"
      by (simp add: exponent2_def pq Let_def)
    with False lower show ?thesis by simp
  qed
qed

lemma exponent2_unique:
  assumes x: "0 < x" and lo: "pow2 e \<le> x" and hi: "x < pow2 (e + 1)"
  shows "exponent2 x = e"
proof -
  note b = exponent2_bounds [OF x]
  from lo b have "pow2 e < pow2 (exponent2 x + 1)" by simp
  then have "\<not> pow2 (exponent2 x + 1) \<le> pow2 e" by simp
  then have "\<not> exponent2 x + 1 \<le> e"
    using pow2_mono [of "exponent2 x + 1" e] by blast
  moreover from hi b have "pow2 (exponent2 x) < pow2 (e + 1)" by simp
  then have "\<not> pow2 (e + 1) \<le> pow2 (exponent2 x)" by simp
  then have "\<not> e + 1 \<le> exponent2 x"
    using pow2_mono [of "e + 1" "exponent2 x"] by blast
  ultimately show ?thesis by simp
qed

lemma round_half_even_of_int: "round_half_even (of_int k) = k"
  by (simp add: round_half_even_def)

lemma round_half_even_le:
  assumes "y \<le> of_int k"
  shows "round_half_even y \<le> k"
proof (cases "\<lfloor>y\<rfloor> = k")
  case True
  with assms have "y - of_int \<lfloor>y\<rfloor> \<le> 0" by simp
  then have "y - of_int \<lfloor>y\<rfloor> < 1 / 2" by simp
  then have "round_half_even y = \<lfloor>y\<rfloor>"
    by (simp add: round_half_even_def Let_def)
  with True show ?thesis by simp
next
  case False
  from assms have "\<lfloor>y\<rfloor> \<le> k" by (simp add: floor_le_iff)
  with False have "\<lfloor>y\<rfloor> + 1 \<le> k" by simp
  moreover have "round_half_even y \<le> \<lfloor>y\<rfloor> + 1"
    by (simp add: round_half_even_def Let_def)
  ultimately show ?thesis by simp
qed

lemma round_half_even_nonneg:
  assumes "0 \<le> y"
  shows "0 \<le> round_half_even y"
proof -
  from assms have "0 \<le> \<lfloor>y\<rfloor>" by simp
  moreover have "\<lfloor>y\<rfloor> \<le> round_half_even y"
    by (simp add: round_half_even_def Let_def)
  ultimately show ?thesis by (rule order_trans)
qed

lemma round_half_even_near:
  assumes lo: "of_int m - 1 / 2 < y" and hi: "y < of_int m + 1 / 2"
  shows "round_half_even y = m"
proof (cases "of_int m \<le> y")
  case True
  with hi have "\<lfloor>y\<rfloor> = m"
    by (intro floor_unique) simp_all
  moreover from hi have "y - of_int m < 1 / 2" by simp
  ultimately show ?thesis
    by (simp add: round_half_even_def Let_def)
next
  case False
  with lo have f: "\<lfloor>y\<rfloor> = m - 1"
    by (intro floor_unique) simp_all
  from lo have "1 / 2 < y - of_int (m - 1)" by simp
  then have "\<not> y - of_int (m - 1) < 1 / 2" and "1 / 2 < y - of_int (m - 1)"
    by simp_all
  with f show ?thesis
    by (simp add: round_half_even_def Let_def)
qed

lemma round_half_even_tie:
  assumes "y = of_int f + 1 / 2"
  shows "round_half_even y = (if even f then f else f + 1)"
proof -
  have "\<lfloor>y\<rfloor> = f"
    unfolding assms by (intro floor_unique) simp_all
  moreover have "y - of_int f = 1 / 2"
    by (simp add: assms)
  ultimately show ?thesis
    by (simp add: round_half_even_def Let_def)
qed

lemma round64_exact_pos:
  assumes x: "0 < x" and k: "x / pow2 (max (exponent2 x) (- 1022) - 52) = of_int k"
    and b: "x < pow2 1024"
  shows "round64 x = Some x"
proof -
  let ?u = "pow2 (max (exponent2 x) (- 1022) - 52)"
  have u: "0 < ?u" by (rule pow2_pos)
  from k u have xk: "of_int k * ?u = x"
    by (simp add: field_simps)
  have "of_int (round_half_even (x / ?u)) * ?u = x"
    unfolding k round_half_even_of_int by (rule xk)
  with x b show ?thesis
    by (simp add: round64_def Let_def)
qed

lemma exponent2_of_nat_le:
  assumes n: "0 < n" and le: "of_nat n \<le> (2::rat) ^ 53"
  shows "0 \<le> exponent2 (of_nat n) \<and> exponent2 (of_nat n) \<le> 53"
proof -
  have pos: "(0::rat) < of_nat n" using n by simp
  note eb = exponent2_bounds [OF pos]
  have "pow2 (exponent2 (of_nat n)) \<le> pow2 53"
    using eb le by (simp add: pow2_def)
  then have hi: "exponent2 (of_nat n) \<le> 53"
    by (rule pow2_le_imp_le)
  have "(1::rat) \<le> of_nat n" using n by simp
  with eb have "pow2 0 < pow2 (exponent2 (of_nat n) + 1)"
    by (simp add: pow2_def)
  then have "\<not> pow2 (exponent2 (of_nat n) + 1) \<le> pow2 0" by simp
  then have "\<not> exponent2 (of_nat n) + 1 \<le> 0"
    using pow2_mono [of "exponent2 (of_nat n) + 1" 0] by blast
  then have lo: "0 \<le> exponent2 (of_nat n)" by simp
  from lo hi show ?thesis by simp
qed

lemma round64_of_nat:
  assumes le: "of_nat n \<le> (2::rat) ^ 53"
  shows "round64 (of_nat n) = Some (of_nat n)"
proof (cases "n = 0")
  case True
  then show ?thesis by (simp add: round64_def)
next
  case False
  then have n: "0 < n" by simp
  then have pos: "(0::rat) < of_nat n" by simp
  let ?e = "exponent2 (of_nat n :: rat)"
  from exponent2_of_nat_le [OF n le] have e0: "0 \<le> ?e" and e53: "?e \<le> 53"
    by simp_all
  then have m: "max ?e (- 1022) = ?e" by simp
  have b: "(of_nat n :: rat) < pow2 1024"
  proof -
    have "(2::rat) ^ 53 < 2 ^ 1024" by simp
    with le show ?thesis by (simp add: pow2_def)
  qed
  have "\<exists>k. (of_nat n :: rat) / pow2 (?e - 52) = of_int k"
  proof (cases "?e \<le> 52")
    case True
    then have "pow2 (?e - 52) * pow2 (52 - ?e) = 1"
      by (simp add: pow2_add [symmetric] pow2_def)
    then have "(of_nat n :: rat) / pow2 (?e - 52) = of_nat n * pow2 (52 - ?e)"
      using pow2_pos [of "?e - 52"] by (simp add: field_simps)
    also have "\<dots> = of_nat n * 2 ^ nat (52 - ?e)"
      using True by (simp add: pow2_def)
    also have "\<dots> = of_int (int n * 2 ^ nat (52 - ?e))"
      by simp
    finally show ?thesis by blast
  next
    case False
    with e53 have e: "?e = 53" by simp
    from exponent2_bounds [OF pos] have "pow2 53 \<le> (of_nat n :: rat)"
      by (simp add: e)
    with le have n53: "(of_nat n :: rat) = 2 ^ 53"
      by (simp add: pow2_def)
    have u2: "pow2 (?e - 52) = 2"
      unfolding e by (simp add: pow2_def)
    have "(of_nat n :: rat) / pow2 (?e - 52) = of_nat n / 2"
      by (simp only: u2)
    also have "\<dots> = 2 ^ 53 / 2"
      by (simp only: n53)
    also have "\<dots> = of_int (2 ^ 52)"
      by simp
    finally show ?thesis by blast
  qed
  then obtain k where "(of_nat n :: rat) / pow2 (max ?e (- 1022) - 52) = of_int k"
    unfolding m by blast
  from round64_exact_pos [OF pos this b] show ?thesis .
qed

lemma round64_bounded:
  assumes x0: "0 \<le> x" and xn: "x \<le> of_nat n" and le: "of_nat n \<le> (2::rat) ^ 53"
  shows "\<exists>r. round64 x = Some r \<and> 0 \<le> r \<and> r \<le> of_nat n"
proof (cases "x = 0")
  case True
  then show ?thesis by (simp add: round64_def)
next
  case False
  with x0 have pos: "0 < x" by simp
  let ?e = "max (exponent2 x) (- 1022)"
  let ?u = "pow2 (?e - 52)"
  have u: "0 < ?u" by (rule pow2_pos)
  from exponent2_bounds [OF pos] xn le have "pow2 (exponent2 x) \<le> pow2 53"
    by (simp add: pow2_def)
  then have e53: "exponent2 x \<le> 53" by (rule pow2_le_imp_le)
  show ?thesis
  proof (cases "?e \<le> 52")
    case True
    then have "pow2 (?e - 52) * pow2 (52 - ?e) = 1"
      by (simp add: pow2_add [symmetric] pow2_def)
    then have "(of_nat n :: rat) / ?u = of_nat n * pow2 (52 - ?e)"
      using u by (simp add: field_simps)
    also have "\<dots> = of_nat n * 2 ^ nat (52 - ?e)"
      using True by (simp add: pow2_def)
    also have "\<dots> = of_int (int n * 2 ^ nat (52 - ?e))"
      by simp
    finally have nk: "(of_nat n :: rat) / ?u = of_int (int n * 2 ^ nat (52 - ?e))" .
    let ?k = "int n * 2 ^ nat (52 - ?e)"
    let ?m = "round_half_even (x / ?u)"
    from xn u have "x / ?u \<le> of_nat n / ?u"
      by (simp add: divide_right_mono)
    then have "x / ?u \<le> of_int ?k" by (simp only: nk)
    then have mk: "?m \<le> ?k" by (rule round_half_even_le)
    from x0 u have "0 \<le> x / ?u" by simp
    then have m0: "0 \<le> ?m" by (rule round_half_even_nonneg)
    from nk u have kn: "of_int ?k * ?u = (of_nat n :: rat)"
      by (simp add: field_simps)
    from mk have "(of_int ?m :: rat) \<le> of_int ?k" by (simp only: of_int_le_iff)
    with u have "of_int ?m * ?u \<le> of_int ?k * ?u"
      by (simp add: mult_right_mono)
    then have rn: "of_int ?m * ?u \<le> (of_nat n :: rat)" by (simp only: kn)
    from m0 u have r0: "0 \<le> of_int ?m * ?u" by simp
    have "(2::rat) ^ 53 < 2 ^ 1024" by simp
    with rn le have rb: "of_int ?m * ?u < pow2 1024" by (simp add: pow2_def)
    from pos rb have "round64 x = Some (of_int ?m * ?u)"
      by (simp add: round64_def Let_def)
    with r0 rn show ?thesis by blast
  next
    case False
    with e53 have "exponent2 x = 53" by simp
    with exponent2_bounds [OF pos] have "pow2 53 \<le> x" by simp
    with xn le have "x = of_nat n" by (simp add: pow2_def)
    with round64_of_nat [OF le] x0 show ?thesis by simp
  qed
qed

lemma round64_Nats:
  assumes "x \<in> \<nat>" and "x \<le> 2 ^ 53"
  shows "round64 x = Some x"
proof -
  from assms(1) obtain n where "x = of_nat n"
    by (rule Nats_cases)
  with assms(2) round64_of_nat [of n] show ?thesis by simp
qed

lemma round64_bounded_Nats:
  assumes "0 \<le> x" and "x \<le> S" and "S \<in> \<nat>" and "S \<le> 2 ^ 53"
  shows "\<exists>r. round64 x = Some r \<and> 0 \<le> r \<and> r \<le> S"
proof -
  from assms(3) obtain n where "S = of_nat n"
    by (rule Nats_cases)
  with assms round64_bounded [of x n] show ?thesis by simp
qed

lemma Nats_nonneg: "x \<in> \<nat> \<Longrightarrow> (0::rat) \<le> x"
  by (auto elim: Nats_cases)

lemma round64_neg:
  "round64 (- x) = map_option uminus (round64 x)"
  by (simp add: round64_def Let_def)

lemma round64_numeral [simp]:
  "(numeral k :: rat) \<le> 2 ^ 53 \<Longrightarrow> round64 (numeral k) = Some (numeral k)"
  using round64_of_nat [of "numeral k"] by simp

lemma round64_zero [simp]: "round64 0 = Some 0"
  by (simp add: round64_def)

lemma round64_one [simp]: "round64 1 = Some 1"
  using round64_of_nat [of 1] by simp

lemma round64_pos_eval:
  assumes x: "0 < x" and lo: "pow2 e \<le> x" and hi: "x < pow2 (e + 1)"
    and en: "- 1022 \<le> e" and ex: "e \<le> 1022"
    and m1: "of_int m - 1 / 2 < x / pow2 (e - 52)"
    and m2: "x / pow2 (e - 52) < of_int m + 1 / 2"
  shows "round64 x = Some (of_int m * pow2 (e - 52))"
proof -
  let ?u = "pow2 (e - 52)"
  have u: "0 < ?u" by (rule pow2_pos)
  have e: "max (exponent2 \<bar>x\<bar>) (- 1022) = e"
    using x exponent2_unique [OF x lo hi] en by simp
  have m: "round_half_even (\<bar>x\<bar> / ?u) = m"
    using x round_half_even_near [OF m1 m2] by simp
  have "pow2 (e + 1) = pow2 ((e - 52) + 53)"
    by (rule arg_cong [where f = pow2]) simp
  also have "\<dots> = ?u * pow2 53"
    by (rule pow2_add)
  finally have split: "pow2 (e + 1) = ?u * pow2 53" .
  with hi u have "x / ?u < pow2 53"
    by (simp add: field_simps)
  with m1 have "(of_int m :: rat) < of_int (2 ^ 53) + 1 / 2"
    by (simp add: pow2_def)
  then have "(of_int (m - 2 ^ 53) :: rat) < 1 / 2" by simp
  then have "(of_int (m - 2 ^ 53) :: rat) < 1" by simp
  then have "m - 2 ^ 53 < 1" by (simp only: of_int_less_1_iff)
  then have "m \<le> 2 ^ 53" by simp
  then have "(of_int m :: rat) \<le> of_int (2 ^ 53)" by (simp only: of_int_le_iff)
  then have "(of_int m :: rat) \<le> pow2 53" by (simp add: pow2_def)
  with u have "of_int m * ?u \<le> pow2 53 * ?u"
    by (simp add: mult_right_mono)
  also have "\<dots> = pow2 (e + 1)"
    by (simp only: split mult.commute)
  also have "\<dots> < pow2 1024"
    using ex by (intro pow2_strict_mono) simp
  finally have "of_int m * ?u < pow2 1024" .
  with x e m show ?thesis
    by (simp add: round64_def Let_def)
qed

lemma round64_pos_eval_tie:
  assumes x: "0 < x" and lo: "pow2 e \<le> x" and hi: "x < pow2 (e + 1)"
    and en: "- 1022 \<le> e" and ex: "e \<le> 1022"
    and tie: "x / pow2 (e - 52) = of_int f + 1 / 2"
    and m: "m = (if even f then f else f + 1)"
  shows "round64 x = Some (of_int m * pow2 (e - 52))"
proof -
  let ?u = "pow2 (e - 52)"
  have u: "0 < ?u" by (rule pow2_pos)
  have e: "max (exponent2 \<bar>x\<bar>) (- 1022) = e"
    using x exponent2_unique [OF x lo hi] en by simp
  have rm: "round_half_even (\<bar>x\<bar> / ?u) = m"
    using x round_half_even_tie [OF tie] m by simp
  have "pow2 (e + 1) = pow2 ((e - 52) + 53)"
    by (rule arg_cong [where f = pow2]) simp
  also have "\<dots> = ?u * pow2 53"
    by (rule pow2_add)
  finally have split: "pow2 (e + 1) = ?u * pow2 53" .
  with hi u have "x / ?u < pow2 53"
    by (simp add: field_simps)
  then have "x / ?u \<le> of_int (2 ^ 53)"
    by (simp add: pow2_def)
  then have "round_half_even (x / ?u) \<le> 2 ^ 53"
    by (rule round_half_even_le)
  with rm x have "m \<le> 2 ^ 53" by simp
  then have "(of_int m :: rat) \<le> of_int (2 ^ 53)" by (simp only: of_int_le_iff)
  then have "(of_int m :: rat) \<le> pow2 53" by (simp add: pow2_def)
  with u have "of_int m * ?u \<le> pow2 53 * ?u"
    by (simp add: mult_right_mono)
  also have "\<dots> = pow2 (e + 1)"
    by (simp only: split mult.commute)
  also have "\<dots> < pow2 1024"
    using ex by (intro pow2_strict_mono) simp
  finally have "of_int m * ?u < pow2 1024" .
  with x e rm show ?thesis
    by (simp add: round64_def Let_def)
qed

lemma floor_le_round_half_even: "\<lfloor>y\<rfloor> \<le> round_half_even y"
  by (simp add: round_half_even_def Let_def)

lemma round64_overflow:
  assumes "pow2 1024 \<le> x"
  shows "round64 x = None"
proof -
  have p: "0 < pow2 1024" by (rule pow2_pos)
  with assms have x: "0 < x" by simp
  let ?e = "exponent2 x"
  let ?u = "pow2 (max ?e (- 1022) - 52)"
  note b = exponent2_bounds [OF x]
  from assms b have "pow2 1024 < pow2 (?e + 1)" by simp
  then have "\<not> pow2 (?e + 1) \<le> pow2 1024" by simp
  then have "\<not> ?e + 1 \<le> 1024"
    using pow2_mono [of "?e + 1" 1024] by blast
  then have e: "1024 \<le> ?e" by simp
  then have m: "max ?e (- 1022) = ?e" by simp
  have u: "0 < pow2 (?e - 52)" by (rule pow2_pos)
  have "pow2 ?e = pow2 ((?e - 52) + 52)"
    by (rule arg_cong [where f = pow2]) simp
  also have "\<dots> = pow2 (?e - 52) * pow2 52"
    by (rule pow2_add)
  finally have split: "pow2 ?e = pow2 (?e - 52) * pow2 52" .
  with b u have "pow2 52 \<le> x / pow2 (?e - 52)"
    by (simp add: field_simps)
  then have "of_int (2 ^ 52) \<le> x / pow2 (?e - 52)"
    by (simp add: pow2_def)
  then have "2 ^ 52 \<le> \<lfloor>x / pow2 (?e - 52)\<rfloor>"
    by (simp only: le_floor_iff)
  from this floor_le_round_half_even [of "x / pow2 (?e - 52)"]
  have "2 ^ 52 \<le> round_half_even (x / pow2 (?e - 52))"
    by (rule order_trans)
  then have "(of_int (2 ^ 52) :: rat) \<le> of_int (round_half_even (x / pow2 (?e - 52)))"
    by (simp only: of_int_le_iff)
  then have "pow2 52 \<le> of_int (round_half_even (x / pow2 (?e - 52)))"
    by (simp add: pow2_def)
  with u have "pow2 52 * pow2 (?e - 52)
                 \<le> of_int (round_half_even (x / pow2 (?e - 52))) * pow2 (?e - 52)"
    by (simp add: mult_right_mono)
  then have "pow2 ?e \<le> of_int (round_half_even (x / pow2 (?e - 52))) * pow2 (?e - 52)"
    by (simp only: split mult.commute)
  moreover from e have "pow2 1024 \<le> pow2 ?e" by (rule pow2_mono)
  ultimately have "pow2 1024 \<le> of_int (round_half_even (x / pow2 (?e - 52))) * pow2 (?e - 52)"
    by simp
  then have "\<not> of_int (round_half_even (x / pow2 (?e - 52))) * pow2 (?e - 52) < pow2 1024"
    by simp
  with x m show ?thesis
    by (simp add: round64_def Let_def)
qed

text \<open>The roundings of the concrete sessions, each with its exponent and its significand.\<close>

lemma round64_oversized_discount: "round64 (38997 / 2) = Some (38997 / 2)"
  using round64_pos_eval [of "38997 / 2" "14" 5359706868547584]
  by (simp add: pow2_def)

lemma round64_oversized_total: "round64 (12999 / 2) = Some (12999 / 2)"
  using round64_pos_eval [of "12999 / 2" "12" 7146275824730112]
  by (simp add: pow2_def)

lemma round64_large_product: "round64 98729678717218200 = Some 98729678717218208"
  using round64_pos_eval_tie [of 98729678717218200 56 6170604919826137 6170604919826138]
  by (simp add: pow2_def)

lemma round64_large_discount: "round64 (24682419679304552 / 25) = Some (7898374297377457 / 8)"
  using round64_pos_eval [of "24682419679304552 / 25" "49" 7898374297377457]
  by (simp add: pow2_def)

lemma round64_large_total: "round64 (1 / 8) = Some (1 / 8)"
  using round64_pos_eval [of "1 / 8" "- 3" 4503599627370496]
  by (simp add: pow2_def)

lemma round64_headphones_discount: "round64 (12999 / 10) = Some (2858510329892045 / 2199023255552)"
  using round64_pos_eval [of "12999 / 10" "10" 5717020659784090]
  by (simp add: pow2_def)

lemma round64_headphones_total: "round64 (25726592969028403 / 2199023255552) = Some (6431648242257101 / 549755813888)"
  using round64_pos_eval [of "25726592969028403 / 2199023255552" "13" 6431648242257101]
  by (simp add: pow2_def)

lemma round64_headphones_revenue: "round64 (6431648242257101 / 549755813888) = Some (6431648242257101 / 549755813888)"
  using round64_pos_eval [of "6431648242257101 / 549755813888" "13" 6431648242257101]
  by (simp add: pow2_def)

lemma round64_mug_discount: "round64 (899 / 10) = Some (3163075050785997 / 35184372088832)"
  using round64_pos_eval [of "899 / 10" "6" 6326150101571994]
  by (simp add: pow2_def)

lemma round64_mug_total: "round64 (28467675457073971 / 35184372088832) = Some (7116918864268493 / 8796093022208)"
  using round64_pos_eval [of "28467675457073971 / 35184372088832" "9" 7116918864268493]
  by (simp add: pow2_def)

lemma round64_two_orders_revenue: "round64 (110023290740382109 / 8796093022208) = Some (3438227835636941 / 274877906944)"
  using round64_pos_eval [of "110023290740382109 / 8796093022208" "13" 6876455671273882]
  by (simp add: pow2_def)

section \<open>Claims\<close>

lemma line_sum_Nats:
  "\<forall>item\<in>set c. price item \<in> \<nat> \<and> quantity item \<in> \<nat>
   \<Longrightarrow> (\<Sum>item\<leftarrow>c. price item * quantity item) \<in> \<nat>"
  by (induction c) (simp_all add: Nats_add Nats_mult)

lemma subtotal64_acc:
  assumes "a \<in> \<nat>"
    and "\<forall>item\<in>set c. price item \<in> \<nat> \<and> quantity item \<in> \<nat>"
    and "a + (\<Sum>item\<leftarrow>c. price item * quantity item) \<le> 2 ^ 53"
  shows "foldl (\<lambda>sum item.
              Option.bind sum (\<lambda>a.
                Option.bind (fmul (price item) (quantity item)) (\<lambda>m. fadd a m)))
           (Some a) c
         = Some (a + (\<Sum>item\<leftarrow>c. price item * quantity item))"
  using assms
proof (induction c arbitrary: a)
  case Nil
  then show ?case by simp
next
  case (Cons item c)
  let ?pq = "price item * quantity item"
  let ?rest = "\<Sum>item\<leftarrow>c. price item * quantity item"
  from Cons.prems(2) have pq: "?pq \<in> \<nat>" and items: "\<forall>item\<in>set c. price item \<in> \<nat> \<and> quantity item \<in> \<nat>"
    by (simp_all add: Nats_mult)
  from line_sum_Nats [OF items] have rest0: "0 \<le> ?rest" by (rule Nats_nonneg)
  from Cons.prems(1) have a0: "0 \<le> a" by (rule Nats_nonneg)
  from pq have pq0: "0 \<le> ?pq" by (rule Nats_nonneg)
  from Cons.prems(3) have total: "a + ?pq + ?rest \<le> 2 ^ 53"
    by (simp add: add.assoc)
  with a0 rest0 have "?pq \<le> 2 ^ 53" by simp
  with pq have m: "fmul (price item) (quantity item) = Some ?pq"
    by (simp add: fmul_def round64_Nats)
  from Cons.prems(1) pq have apq: "a + ?pq \<in> \<nat>" by (rule Nats_add)
  from total rest0 have "a + ?pq \<le> 2 ^ 53" by simp
  with apq have s: "fadd a ?pq = Some (a + ?pq)"
    by (simp add: fadd_def round64_Nats)
  from Cons.IH [OF apq items total] m s show ?case
    by (simp add: add.assoc)
qed

lemma subtotal64_exact:
  assumes "\<forall>item\<in>set c. price item \<in> \<nat> \<and> quantity item \<in> \<nat>"
    and "(\<Sum>item\<leftarrow>c. price item * quantity item) \<le> 2 ^ 53"
  shows "subtotal64 c = Some (\<Sum>item\<leftarrow>c. price item * quantity item)"
  using subtotal64_acc [of 0 c] assms by (simp add: subtotal64_def)

lemma subtotal64_snoc:
  "subtotal64 (c @ [item])
     = Option.bind (subtotal64 c) (\<lambda>a.
         Option.bind (fmul (price item) (quantity item)) (\<lambda>m. fadd a m))"
  by (simp add: subtotal64_def)

lemma cartTotal64_natural:
  assumes items: "\<forall>item\<in>set (cart s). price item \<in> \<nat> \<and> quantity item \<in> \<nat>"
    and coupon: "\<forall>coupon. appliedCoupon s = Some coupon
                   \<longrightarrow> discount coupon \<in> \<nat> \<and> discount coupon \<le> 100"
    and bound: "100 * (\<Sum>item\<leftarrow>cart s. price item * quantity item) \<le> 2 ^ 53"
  shows "subtotal64 (cart s) = Some (\<Sum>item\<leftarrow>cart s. price item * quantity item)
     \<and> (\<exists>t. cartTotal64 s = Some t \<and> 0 \<le> t
              \<and> t \<le> (\<Sum>item\<leftarrow>cart s. price item * quantity item))
     \<and> (appliedCoupon s = None
          \<longrightarrow> cartTotal64 s = Some (\<Sum>item\<leftarrow>cart s. price item * quantity item))
     \<and> (\<forall>coupon. appliedCoupon s = Some coupon
            \<and> (\<Sum>item\<leftarrow>cart s. price item * quantity item) * discount coupon / 100 \<in> \<nat>
          \<longrightarrow> cartTotal64 s
               = Some ((\<Sum>item\<leftarrow>cart s. price item * quantity item)
                       - (\<Sum>item\<leftarrow>cart s. price item * quantity item)
                         * discount coupon / 100))"
proof -
  let ?S = "\<Sum>item\<leftarrow>cart s. price item * quantity item"
  from line_sum_Nats [OF items] have SN: "?S \<in> \<nat>" .
  then have S0: "0 \<le> ?S" by (rule Nats_nonneg)
  with bound have S53: "?S \<le> 2 ^ 53" by simp
  from subtotal64_exact [OF items S53] have sub: "subtotal64 (cart s) = Some ?S" .
  have SS: "round64 ?S = Some ?S"
    using SN S53 by (rule round64_Nats)
  have none: "cartTotal64 s = Some ?S" if "appliedCoupon s = None"
    using that sub SS by (simp add: cartTotal64_def discountAmount64_def fsub_def)
  have some: "(\<exists>t. cartTotal64 s = Some t \<and> 0 \<le> t \<and> t \<le> ?S)
              \<and> (?S * discount c / 100 \<in> \<nat>
                   \<longrightarrow> cartTotal64 s = Some (?S - ?S * discount c / 100))"
    if ac: "appliedCoupon s = Some c" for c
  proof -
    from coupon ac have DN: "discount c \<in> \<nat>" and D100: "discount c \<le> 100"
      by simp_all
    from DN have D0: "0 \<le> discount c" by (rule Nats_nonneg)
    from SN DN have PN: "?S * discount c \<in> \<nat>" by (rule Nats_mult)
    from S0 D100 have "?S * discount c \<le> ?S * 100"
      by (rule mult_left_mono [rotated])
    with bound have P53: "?S * discount c \<le> 2 ^ 53"
      by (simp add: mult.commute)
    from PN P53 have mul: "fmul ?S (discount c) = Some (?S * discount c)"
      by (simp add: fmul_def round64_Nats)
    have q0: "0 \<le> ?S * discount c / 100"
      using S0 D0 by simp
    have qS: "?S * discount c / 100 \<le> ?S"
      using S0 D100 by (simp add: mult_left_mono)
    from round64_bounded_Nats [OF q0 qS SN S53]
    obtain d where d: "round64 (?S * discount c / 100) = Some d"
      and d0: "0 \<le> d" and dS: "d \<le> ?S"
      by blast
    from mul d have disc: "discountAmount64 ?S (appliedCoupon s) = Some d"
      by (simp add: discountAmount64_def ac fdiv_def)
    from d0 dS have t0: "0 \<le> ?S - d" and tS: "?S - d \<le> ?S"
      by simp_all
    from round64_bounded_Nats [OF t0 tS SN S53]
    obtain t where t: "round64 (?S - d) = Some t" and "0 \<le> t" and "t \<le> ?S"
      by blast
    with sub disc have first: "\<exists>t. cartTotal64 s = Some t \<and> 0 \<le> t \<and> t \<le> ?S"
      by (simp add: cartTotal64_def fsub_def)
    have second: "cartTotal64 s = Some (?S - ?S * discount c / 100)"
      if QN: "?S * discount c / 100 \<in> \<nat>"
    proof -
      from qS S53 have "?S * discount c / 100 \<le> 2 ^ 53" by simp
      with QN have "round64 (?S * discount c / 100) = Some (?S * discount c / 100)"
        by (rule round64_Nats)
      with d have dq: "d = ?S * discount c / 100" by simp
      from SN QN qS have "?S - ?S * discount c / 100 \<in> \<nat>"
        by (rule Nats_diff)
      moreover from tS S53 have "?S - ?S * discount c / 100 \<le> 2 ^ 53"
        by (simp add: dq)
      ultimately have "round64 (?S - ?S * discount c / 100) = Some (?S - ?S * discount c / 100)"
        by (rule round64_Nats)
      with sub disc dq show ?thesis
        by (simp add: cartTotal64_def fsub_def)
    qed
    from first second show ?thesis by blast
  qed
  have bounded: "\<exists>t. cartTotal64 s = Some t \<and> 0 \<le> t \<and> t \<le> ?S"
  proof (cases "appliedCoupon s")
    case None
    with none S0 show ?thesis by simp
  next
    case (Some c)
    with some show ?thesis by blast
  qed
  from sub bounded none some show ?thesis by blast
qed

text \<open>
  C1, as the code has it: the subtotal adds line price times line quantity over the cart
  lines from left to right, the discount amount is \<open>S * D / 100\<close> for an applied coupon of
  \<open>D\<close> percent and 0 without one, and the total is the subtotal minus the discount amount,
  every operation in binary64. No clamp is applied. When prices, quantities and \<open>D\<close> are
  non-negative integers, \<open>D\<close> is at most 100 and 100 times the exact sum of price times
  quantity is at most \<open>2^53\<close>, the subtotal is that exact sum \<open>S\<close>, the total lies between 0
  and \<open>S\<close>, and it is exactly \<open>S - S * D / 100\<close> when that discount amount is an integer.
  Outside these bounds the total can be negative or not finite.
\<close>

theorem pricing_engine_binary64:
  "subtotal64 [] = Some 0
   \<and> subtotal64 (c @ [item])
       = Option.bind (subtotal64 c) (\<lambda>a.
           Option.bind (fmul (price item) (quantity item)) (\<lambda>m. fadd a m))
   \<and> discountAmount64 S None = Some 0
   \<and> discountAmount64 S (Some coupon)
       = Option.bind (fmul S (discount coupon)) (\<lambda>p. fdiv p 100)
   \<and> cartTotal64 s
       = Option.bind (subtotal64 (cart s)) (\<lambda>S.
           Option.bind (discountAmount64 S (appliedCoupon s)) (\<lambda>d. fsub S d))
   \<and> ((\<forall>item\<in>set (cart s). price item \<in> \<nat> \<and> quantity item \<in> \<nat>)
        \<and> (\<forall>coupon. appliedCoupon s = Some coupon
               \<longrightarrow> discount coupon \<in> \<nat> \<and> discount coupon \<le> 100)
        \<and> 100 * (\<Sum>item\<leftarrow>cart s. price item * quantity item) \<le> 2 ^ 53
       \<longrightarrow> subtotal64 (cart s) = Some (\<Sum>item\<leftarrow>cart s. price item * quantity item)
           \<and> (\<exists>t. cartTotal64 s = Some t \<and> 0 \<le> t
                    \<and> t \<le> (\<Sum>item\<leftarrow>cart s. price item * quantity item))
           \<and> (appliedCoupon s = None
                \<longrightarrow> cartTotal64 s = Some (\<Sum>item\<leftarrow>cart s. price item * quantity item))
           \<and> (\<forall>coupon. appliedCoupon s = Some coupon
                  \<and> (\<Sum>item\<leftarrow>cart s. price item * quantity item) * discount coupon / 100
                      \<in> \<nat>
                \<longrightarrow> cartTotal64 s
                     = Some ((\<Sum>item\<leftarrow>cart s. price item * quantity item)
                             - (\<Sum>item\<leftarrow>cart s. price item * quantity item)
                               * discount coupon / 100)))"
proof -
  have e: "subtotal64 [] = Some 0"
    by (simp add: subtotal64_def)
  have d0: "discountAmount64 S None = Some 0"
    by (simp add: discountAmount64_def)
  have d1: "discountAmount64 S (Some coupon)
       = Option.bind (fmul S (discount coupon)) (\<lambda>p. fdiv p 100)"
    by (simp add: discountAmount64_def)
  have t: "cartTotal64 s
       = Option.bind (subtotal64 (cart s)) (\<lambda>S.
           Option.bind (discountAmount64 S (appliedCoupon s)) (\<lambda>d. fsub S d))"
    by (simp add: cartTotal64_def)
  have nat: "subtotal64 (cart s) = Some (\<Sum>item\<leftarrow>cart s. price item * quantity item)
           \<and> (\<exists>t. cartTotal64 s = Some t \<and> 0 \<le> t
                    \<and> t \<le> (\<Sum>item\<leftarrow>cart s. price item * quantity item))
           \<and> (appliedCoupon s = None
                \<longrightarrow> cartTotal64 s = Some (\<Sum>item\<leftarrow>cart s. price item * quantity item))
           \<and> (\<forall>coupon. appliedCoupon s = Some coupon
                  \<and> (\<Sum>item\<leftarrow>cart s. price item * quantity item) * discount coupon / 100
                      \<in> \<nat>
                \<longrightarrow> cartTotal64 s
                     = Some ((\<Sum>item\<leftarrow>cart s. price item * quantity item)
                             - (\<Sum>item\<leftarrow>cart s. price item * quantity item)
                               * discount coupon / 100))"
    if "(\<forall>item\<in>set (cart s). price item \<in> \<nat> \<and> quantity item \<in> \<nat>)
        \<and> (\<forall>coupon. appliedCoupon s = Some coupon
               \<longrightarrow> discount coupon \<in> \<nat> \<and> discount coupon \<le> 100)
        \<and> 100 * (\<Sum>item\<leftarrow>cart s. price item * quantity item) \<le> 2 ^ 53"
    using that cartTotal64_natural [of s] by blast
  from e subtotal64_snoc [of c item] d0 d1 t nat show ?thesis
    by blast
qed

lemma watch_coupon_eval:
  "cart watch_coupon_state
     = [\<lparr>pid = 2, name = ''Minimalist Leather Watch'', price = 4500,
          image_url = ''https://picsum.photos/seed/watch/400/400'',
          category = ''Accessories'', quantity = 1\<rparr>]
   \<and> appliedCoupon watch_coupon_state
     = Some \<lparr>code = ''WELCOME10'', discount = 10, isActive = True\<rparr>"
  by code_simp

lemma overflow_cart:
  "cart overflow_state
     = [\<lparr>pid = 1767225600001, name = ''Tower'', price = 2 ^ 1023,
          image_url = ''https://picsum.photos/seed/1767225600001/400/400'',
          category = ''Home'', quantity = 2\<rparr>]"
  by (simp add: overflow_state_def run_Cons run_Nil addToCart_def setCouponInput_def
        handleApplyCoupon_unfold initial_state_def split: option.split)

lemma overflow_cartTotal64: "cartTotal64 overflow_state = None"
proof -
  have "fmul (2 ^ 1023) 2 = None"
    unfolding fmul_def by (rule round64_overflow) (simp add: pow2_def)
  then show ?thesis
    by (simp add: cartTotal64_def subtotal64_def overflow_cart)
qed

theorem pricing_engine_binary64_witness:
  "subtotal64 (cart watch_coupon_state) = Some 4500
   \<and> cartTotal64 watch_coupon_state = Some 4050
   \<and> subtotal64 (cart scenario_state) = Some 21999
   \<and> cartTotal64 overflow_state = None"
proof -
  have w: "(\<forall>item\<in>set (cart watch_coupon_state). price item \<in> \<nat> \<and> quantity item \<in> \<nat>)
        \<and> (\<forall>coupon. appliedCoupon watch_coupon_state = Some coupon
               \<longrightarrow> discount coupon \<in> \<nat> \<and> discount coupon \<le> 100)
        \<and> 100 * (\<Sum>item\<leftarrow>cart watch_coupon_state. price item * quantity item) \<le> 2 ^ 53"
    by (simp add: watch_coupon_eval)
  have wc: "appliedCoupon watch_coupon_state
              = Some \<lparr>code = ''WELCOME10'', discount = 10, isActive = True\<rparr>
            \<and> (\<Sum>item\<leftarrow>cart watch_coupon_state. price item * quantity item)
                * discount \<lparr>code = ''WELCOME10'', discount = 10, isActive = True\<rparr> / 100 \<in> \<nat>"
    by (simp add: watch_coupon_eval)
  have ws: "(\<Sum>item\<leftarrow>cart watch_coupon_state. price item * quantity item) = 4500"
    by (simp add: watch_coupon_eval)
  have sc: "(\<forall>item\<in>set (cart scenario_state). price item \<in> \<nat> \<and> quantity item \<in> \<nat>)
        \<and> (\<forall>coupon. appliedCoupon scenario_state = Some coupon
               \<longrightarrow> discount coupon \<in> \<nat> \<and> discount coupon \<le> 100)
        \<and> 100 * (\<Sum>item\<leftarrow>cart scenario_state. price item * quantity item) \<le> 2 ^ 53"
    by (simp add: scenario_state_eval initial_state_def)
  have ss: "(\<Sum>item\<leftarrow>cart scenario_state. price item * quantity item) = 21999"
    by (simp add: scenario_state_eval initial_state_def)
  from pricing_engine_binary64 [where s = watch_coupon_state] w wc
  have w1: "subtotal64 (cart watch_coupon_state)
              = Some (\<Sum>item\<leftarrow>cart watch_coupon_state. price item * quantity item)"
    and w2: "cartTotal64 watch_coupon_state
              = Some ((\<Sum>item\<leftarrow>cart watch_coupon_state. price item * quantity item)
                      - (\<Sum>item\<leftarrow>cart watch_coupon_state. price item * quantity item)
                        * discount \<lparr>code = ''WELCOME10'', discount = 10, isActive = True\<rparr> / 100)"
    by blast+
  from pricing_engine_binary64 [where s = scenario_state] sc
  have s1: "subtotal64 (cart scenario_state)
              = Some (\<Sum>item\<leftarrow>cart scenario_state. price item * quantity item)"
    by blast
  from w1 w2 s1 overflow_cartTotal64 show ?thesis
    unfolding ws ss by simp
qed

lemma oversized_coupon_cart:
  "cart oversized_coupon_state
     = [\<lparr>pid = 1, name = ''Premium Wireless Headphones'', price = 12999,
          image_url = ''https://picsum.photos/seed/headphones/400/400'',
          category = ''Electronics'', quantity = 1\<rparr>]
   \<and> appliedCoupon oversized_coupon_state
     = Some \<lparr>code = ''BIG'', discount = 150, isActive = True\<rparr>"
  by code_simp

lemma oversized_cartTotal64: "cartTotal64 oversized_coupon_state = Some (- (12999 / 2))"
  by (simp add: cartTotal64_def subtotal64_def discountAmount64_def oversized_coupon_cart
        fmul_def fadd_def fdiv_def fsub_def round64_oversized_discount round64_neg
        round64_oversized_total)

lemma large_price_cart:
  "cart large_price_state
     = [\<lparr>pid = 1767225600000, name = ''Estate'', price = 987296787172182,
          image_url = ''https://picsum.photos/seed/1767225600000/400/400'',
          category = ''Home'', quantity = 1\<rparr>]
   \<and> appliedCoupon large_price_state
     = Some \<lparr>code = ''ALL'', discount = 100, isActive = True\<rparr>"
  by code_simp

lemma large_price_cartTotal64: "cartTotal64 large_price_state = Some (- (1 / 8))"
  by (simp add: cartTotal64_def subtotal64_def discountAmount64_def large_price_cart
        fmul_def fadd_def fdiv_def fsub_def round64_large_product round64_large_discount
        round64_neg round64_large_total)

text \<open>
  C1 as stated fails: a coupon of 150 percent, registered through the coupon form and
  applied to a cart holding the headphones, gives the total -6499.5; and with a coupon of
  100 percent on a price of 987296787172182 the binary64 total is -0.125.
\<close>

theorem pricing_total_negative_counterexample:
  "cartTotal oversized_coupon_state = - (12999 / 2)
   \<and> \<not> 0 \<le> cartTotal oversized_coupon_state
   \<and> cartTotal64 oversized_coupon_state = Some (- (12999 / 2))
   \<and> cartTotal64 large_price_state = Some (- (1 / 8))"
  by (simp add: oversized_cartTotal oversized_cartTotal64 large_price_cartTotal64)

lemma coupon_action_orders:
  "is_coupon_action a \<Longrightarrow> orders (step toNumber a s) = orders s"
  by (cases a)
     (simp_all add: setCouponInput_def handleApplyCoupon_unfold removeAppliedCoupon_def
        setNewCouponCode_def setNewCouponDiscount_def handleAddCoupon_def Let_def
        toggleCouponStatus_def deleteCoupon_def split: option.split)

lemma coupon_actions_orders:
  "\<forall>a\<in>set acts. is_coupon_action a \<Longrightarrow> orders (run toNumber acts s) = orders s"
proof (induction acts arbitrary: s)
  case Nil
  show ?case by (simp add: run_Nil)
next
  case (Cons a acts)
  then have "orders (run toNumber acts (step toNumber a s)) = orders (step toNumber a s)"
    by simp
  with Cons.prems show ?case
    by (simp add: run_Cons coupon_action_orders)
qed

lemma later_coupon_applied:
  "appliedCoupon (run decimalNumber
           [RemoveAppliedCoupon, ToggleCouponStatus ''WELCOME10'', SetNewCouponCode ''half'',
            SetNewCouponDiscount ''50'', HandleAddCoupon, DeleteCoupon ''WELCOME10'',
            SetCouponInput ''HALF'', HandleApplyCoupon]
           (checkout ''ORD-K3J9X0Q2A'' ''1/1/2026'' scenario_state)) = Some \<lparr>code = ''HALF'', discount = 50, isActive = True\<rparr>"
  by code_simp

text \<open>
  C2: applying a coupon, removing the applied coupon and every change to the coupon
  registry (register, toggle, delete) leave the order ledger as it is, so the frozen total of
  every placed order stays; the order placed by a checkout keeps the total computed at that
  checkout through any later sequence of such actions.
\<close>

theorem coupon_changes_keep_order_totals:
  assumes "\<forall>a\<in>set acts. is_coupon_action a"
  shows "orders (run toNumber acts s) = orders s
     \<and> map order_total (orders (run toNumber acts s)) = map order_total (orders s)
     \<and> (cart s \<noteq> [] \<longrightarrow>
          orders (run toNumber acts (checkout newId now s))
            = \<lparr>order_id = newId, date = now, items = cart s,
                order_total = cartTotal s, status = Pending\<rparr> # orders s)"
proof (intro conjI impI)
  show "orders (run toNumber acts s) = orders s"
    by (rule coupon_actions_orders [OF assms])
  then show "map order_total (orders (run toNumber acts s)) = map order_total (orders s)"
    by simp
next
  assume ne: "cart s \<noteq> []"
  have "orders (run toNumber acts (checkout newId now s)) = orders (checkout newId now s)"
    by (rule coupon_actions_orders [OF assms])
  with checkout_orders_nonempty [OF ne] show "orders (run toNumber acts (checkout newId now s))
            = \<lparr>order_id = newId, date = now, items = cart s,
                order_total = cartTotal s, status = Pending\<rparr> # orders s"
    by simp
qed

theorem coupon_changes_keep_order_totals_witness:
  "map order_total
     (orders (run decimalNumber
           [RemoveAppliedCoupon, ToggleCouponStatus ''WELCOME10'', SetNewCouponCode ''half'',
            SetNewCouponDiscount ''50'', HandleAddCoupon, DeleteCoupon ''WELCOME10'',
            SetCouponInput ''HALF'', HandleApplyCoupon]
           (checkout ''ORD-K3J9X0Q2A'' ''1/1/2026'' scenario_state)))
   = [197991 / 10]
   \<and> appliedCoupon (run decimalNumber
           [RemoveAppliedCoupon, ToggleCouponStatus ''WELCOME10'', SetNewCouponCode ''half'',
            SetNewCouponDiscount ''50'', HandleAddCoupon, DeleteCoupon ''WELCOME10'',
            SetCouponInput ''HALF'', HandleApplyCoupon]
           (checkout ''ORD-K3J9X0Q2A'' ''1/1/2026'' scenario_state))
     = Some \<lparr>code = ''HALF'', discount = 50, isActive = True\<rparr>"
proof -
  have h: "\<forall>a\<in>set [RemoveAppliedCoupon, ToggleCouponStatus ''WELCOME10'', SetNewCouponCode ''half'',
            SetNewCouponDiscount ''50'', HandleAddCoupon, DeleteCoupon ''WELCOME10'',
            SetCouponInput ''HALF'', HandleApplyCoupon]. is_coupon_action a"
    by simp
  have ne: "cart scenario_state \<noteq> []"
    by (simp add: scenario_state_eval)
  have o: "orders scenario_state = []"
    by (simp add: scenario_state_eval initial_state_def)
  from coupon_changes_keep_order_totals [OF h, of decimalNumber scenario_state
         "''ORD-K3J9X0Q2A''" "''1/1/2026''"] ne
  have "orders (run decimalNumber
           [RemoveAppliedCoupon, ToggleCouponStatus ''WELCOME10'', SetNewCouponCode ''half'',
            SetNewCouponDiscount ''50'', HandleAddCoupon, DeleteCoupon ''WELCOME10'',
            SetCouponInput ''HALF'', HandleApplyCoupon]
           (checkout ''ORD-K3J9X0Q2A'' ''1/1/2026'' scenario_state))
        = \<lparr>order_id = ''ORD-K3J9X0Q2A'', date = ''1/1/2026'', items = cart scenario_state,
            order_total = cartTotal scenario_state, status = Pending\<rparr> # orders scenario_state"
    by blast
  then show ?thesis
    by (simp add: o scenario_cartTotal later_coupon_applied)
qed

text \<open>
  C3: \<open>checkout\<close> invoked on an empty cart is a no-op, not an error: the order ledger and
  every other state cell are left unchanged.
\<close>

theorem checkout_empty_cart_noop:
  "cart s = [] \<Longrightarrow> checkout newId now s = s"
  by (simp add: checkout_def)

theorem checkout_empty_cart_noop_witness:
  "cart initial_state = [] \<and> checkout ''ORD-ABC123XYZ'' ''1/1/2026'' initial_state = initial_state
   \<and> orders (checkout ''ORD-ABC123XYZ'' ''1/1/2026'' initial_state) = []"
proof -
  have c: "cart initial_state = []"
    by (simp add: initial_state_def)
  have o: "orders initial_state = []"
    by (simp add: initial_state_def)
  from checkout_empty_cart_noop [OF c, of "''ORD-ABC123XYZ''" "''1/1/2026''"] c o
  show ?thesis by simp
qed

lemma find_Some_if_exists:
  "\<exists>x\<in>set xs. P x \<Longrightarrow> \<exists>y. find P xs = Some y"
  by (cases "find P xs") (auto simp: find_None_iff)

lemma addToCart_cart_present:
  "pid product \<in> pid ` set (cart s) \<Longrightarrow>
   cart (addToCart product s)
     = map (\<lambda>item. if pid item = pid product
                    then item\<lparr>quantity := quantity item + 1\<rparr> else item) (cart s)"
proof -
  assume "pid product \<in> pid ` set (cart s)"
  then have "\<exists>x\<in>set (cart s). pid x = pid product" by auto
  then obtain y where "find (\<lambda>item. pid item = pid product) (cart s) = Some y"
    using find_Some_if_exists [of "cart s" "\<lambda>item. pid item = pid product"] by blast
  then show ?thesis by (simp add: addToCart_def)
qed

lemma addToCart_cart_absent:
  "pid product \<notin> pid ` set (cart s) \<Longrightarrow>
   cart (addToCart product s)
     = cart s @ [\<lparr>pid = pid product, name = name product, price = price product,
                  image_url = image_url product, category = category product,
                  quantity = 1\<rparr>]"
proof -
  assume "pid product \<notin> pid ` set (cart s)"
  then have "find (\<lambda>item. pid item = pid product) (cart s) = None"
    unfolding find_None_iff by (metis imageI)
  then show ?thesis by (simp add: addToCart_def)
qed

lemma map_bump_absent:
  "i \<notin> pid ` set xs \<Longrightarrow>
   map (\<lambda>item. if pid item = i then g item else item) xs = xs"
  by (induction xs) auto

lemma map_pid_bump:
  "map pid (map (\<lambda>item. if pid item = i
                    then item\<lparr>quantity := f item\<rparr> else item) xs) = map pid xs"
  by (induction xs) simp_all

text \<open>
  C4: \<open>addToCart\<close> adds 1 to the quantity of the line of \<open>product.id\<close> when the cart has
  one and leaves every other line as it is; otherwise it appends a line of quantity 1 after
  the existing lines. Adding a product that is not in the cart twice gives one line of
  quantity 2, and a cart with one line for each product identifier stays so.
\<close>

theorem addToCart_increment_or_append:
  "(pid product \<in> pid ` set (cart s) \<longrightarrow>
      length (cart (addToCart product s)) = length (cart s)
      \<and> (\<forall>k<length (cart s).
            cart (addToCart product s) ! k
              = (if pid (cart s ! k) = pid product
                 then (cart s ! k)\<lparr>quantity := quantity (cart s ! k) + 1\<rparr>
                 else cart s ! k)))
   \<and> (pid product \<notin> pid ` set (cart s) \<longrightarrow>
      cart (addToCart product s)
        = cart s @ [\<lparr>pid = pid product, name = name product, price = price product,
                     image_url = image_url product, category = category product,
                     quantity = 1\<rparr>]
      \<and> cart (addToCart product (addToCart product s))
        = cart s @ [\<lparr>pid = pid product, name = name product, price = price product,
                     image_url = image_url product, category = category product,
                     quantity = 2\<rparr>])
   \<and> (distinct (map pid (cart s)) \<longrightarrow> distinct (map pid (cart (addToCart product s))))"
proof (intro conjI impI)
  assume p: "pid product \<in> pid ` set (cart s)"
  show "length (cart (addToCart product s)) = length (cart s)"
    by (simp add: addToCart_cart_present [OF p])
  show "\<forall>k<length (cart s).
            cart (addToCart product s) ! k
              = (if pid (cart s ! k) = pid product
                 then (cart s ! k)\<lparr>quantity := quantity (cart s ! k) + 1\<rparr>
                 else cart s ! k)"
    by (simp add: addToCart_cart_present [OF p])
next
  assume a: "pid product \<notin> pid ` set (cart s)"
  show one: "cart (addToCart product s)
        = cart s @ [\<lparr>pid = pid product, name = name product, price = price product,
                     image_url = image_url product, category = category product,
                     quantity = 1\<rparr>]"
    by (rule addToCart_cart_absent [OF a])
  have "pid product \<in> pid ` set (cart (addToCart product s))"
    by (simp add: one)
  from addToCart_cart_present [OF this] a
  show "cart (addToCart product (addToCart product s))
        = cart s @ [\<lparr>pid = pid product, name = name product, price = price product,
                     image_url = image_url product, category = category product,
                     quantity = 2\<rparr>]"
    by (simp add: one map_bump_absent)
next
  assume d: "distinct (map pid (cart s))"
  show "distinct (map pid (cart (addToCart product s)))"
  proof (cases "pid product \<in> pid ` set (cart s)")
    case True
    then have "map pid (cart (addToCart product s)) = map pid (cart s)"
      by (simp only: addToCart_cart_present map_pid_bump)
    then show ?thesis using d by simp
  next
    case False
    then show ?thesis using d
      by (simp add: addToCart_cart_absent)
  qed
qed

theorem addToCart_increment_or_append_witness:
  "cart (addToCart (INITIAL_PRODUCTS ! 0) (addToCart (INITIAL_PRODUCTS ! 0) initial_state))
     = [\<lparr>pid = 1, name = ''Premium Wireless Headphones'', price = 12999,
          image_url = ''https://picsum.photos/seed/headphones/400/400'',
          category = ''Electronics'', quantity = 2\<rparr>]
   \<and> length (cart (addToCart (INITIAL_PRODUCTS ! 0) three_headphones_state)) = 1
   \<and> quantity (cart (addToCart (INITIAL_PRODUCTS ! 0) three_headphones_state) ! 0) = 4
   \<and> distinct (map pid (cart (addToCart (INITIAL_PRODUCTS ! 0) three_headphones_state)))"
proof -
  have c0: "cart initial_state = []"
    by (simp add: initial_state_def)
  have a: "pid (INITIAL_PRODUCTS ! 0) \<notin> pid ` set (cart initial_state)"
    by (simp add: c0)
  have p: "pid (INITIAL_PRODUCTS ! 0) \<in> pid ` set (cart three_headphones_state)"
    by (simp add: three_headphones_cart headphones_eval)
  have d: "distinct (map pid (cart three_headphones_state))"
    by (simp add: three_headphones_cart)
  have k: "0 < length (cart three_headphones_state)"
    by (simp add: three_headphones_cart)
  from addToCart_increment_or_append [of "INITIAL_PRODUCTS ! 0" initial_state] a
  have two: "cart (addToCart (INITIAL_PRODUCTS ! 0) (addToCart (INITIAL_PRODUCTS ! 0) initial_state))
     = cart initial_state @ [\<lparr>pid = pid (INITIAL_PRODUCTS ! 0), name = name (INITIAL_PRODUCTS ! 0),
          price = price (INITIAL_PRODUCTS ! 0), image_url = image_url (INITIAL_PRODUCTS ! 0),
          category = category (INITIAL_PRODUCTS ! 0), quantity = 2\<rparr>]"
    by blast
  from addToCart_increment_or_append [of "INITIAL_PRODUCTS ! 0" three_headphones_state] p d k
  have len: "length (cart (addToCart (INITIAL_PRODUCTS ! 0) three_headphones_state))
               = length (cart three_headphones_state)"
    and nth: "cart (addToCart (INITIAL_PRODUCTS ! 0) three_headphones_state) ! 0
              = (if pid (cart three_headphones_state ! 0) = pid (INITIAL_PRODUCTS ! 0)
                 then (cart three_headphones_state ! 0)
                        \<lparr>quantity := quantity (cart three_headphones_state ! 0) + 1\<rparr>
                 else cart three_headphones_state ! 0)"
    and dis: "distinct (map pid (cart (addToCart (INITIAL_PRODUCTS ! 0) three_headphones_state)))"
    by blast+
  show ?thesis
    using two len nth dis by (simp add: c0 three_headphones_cart headphones_eval)
qed

text \<open>
  C5: \<open>updateQuantity\<close> sets the quantity of the line of \<open>productId\<close> to
  \<open>max(1, quantity + delta)\<close>, for a negative \<open>delta\<close> too, so that line's quantity is at
  least 1; every other line stays as it is, and when \<open>productId\<close> is not in the cart the state
  is unchanged.
\<close>

theorem updateQuantity_floor_one:
  "length (cart (updateQuantity productId delta s)) = length (cart s)
   \<and> (\<forall>k<length (cart s).
         cart (updateQuantity productId delta s) ! k
           = (if pid (cart s ! k) = productId
              then (cart s ! k)\<lparr>quantity := max 1 (quantity (cart s ! k) + delta)\<rparr>
              else cart s ! k))
   \<and> (\<forall>k<length (cart s).
         pid (cart s ! k) = productId
           \<longrightarrow> 1 \<le> quantity (cart (updateQuantity productId delta s) ! k))
   \<and> (productId \<notin> pid ` set (cart s) \<longrightarrow> updateQuantity productId delta s = s)"
proof (intro conjI impI)
  show "length (cart (updateQuantity productId delta s)) = length (cart s)"
    by (simp add: updateQuantity_def)
  show "\<forall>k<length (cart s).
         cart (updateQuantity productId delta s) ! k
           = (if pid (cart s ! k) = productId
              then (cart s ! k)\<lparr>quantity := max 1 (quantity (cart s ! k) + delta)\<rparr>
              else cart s ! k)"
    by (simp add: updateQuantity_def Let_def)
  show "\<forall>k<length (cart s).
         pid (cart s ! k) = productId
           \<longrightarrow> 1 \<le> quantity (cart (updateQuantity productId delta s) ! k)"
    by (simp add: updateQuantity_def Let_def)
next
  assume "productId \<notin> pid ` set (cart s)"
  then have "map (\<lambda>item. if pid item = productId
                      then (let newQuantity = max 1 (quantity item + delta)
                            in item\<lparr>quantity := newQuantity\<rparr>)
                      else item) (cart s) = cart s"
    by (rule map_bump_absent)
  then show "updateQuantity productId delta s = s"
    by (simp add: updateQuantity_def)
qed

theorem updateQuantity_floor_one_witness:
  "quantity (cart three_headphones_state ! 0) = 3
   \<and> quantity (cart (updateQuantity 1 (- 100) three_headphones_state) ! 0) = 1
   \<and> updateQuantity 2 (- 100) three_headphones_state = three_headphones_state"
proof -
  have k: "0 < length (cart three_headphones_state)"
    by (simp add: three_headphones_cart)
  have a: "2 \<notin> pid ` set (cart three_headphones_state)"
    by (simp add: three_headphones_cart)
  from updateQuantity_floor_one [of 1 "- 100" three_headphones_state] k
  have nth: "cart (updateQuantity 1 (- 100) three_headphones_state) ! 0
           = (if pid (cart three_headphones_state ! 0) = 1
              then (cart three_headphones_state ! 0)
                     \<lparr>quantity := max 1 (quantity (cart three_headphones_state ! 0) + - 100)\<rparr>
              else cart three_headphones_state ! 0)"
    by blast
  from updateQuantity_floor_one [of 2 "- 100" three_headphones_state] a
  have same: "updateQuantity 2 (- 100) three_headphones_state = three_headphones_state"
    by blast
  show ?thesis
    using nth same by (simp add: three_headphones_cart)
qed



























lemma duplicate_coupon_registry:
  "coupons duplicate_coupon_state
     = [\<lparr>code = ''WELCOME10'', discount = 10, isActive = True\<rparr>,
        \<lparr>code = ''WELCOME10'', discount = 10, isActive = True\<rparr>]"
  by code_simp

lemma duplicate_coupon_codes:
  "normalized_codes duplicate_coupon_state = [''WELCOME10'', ''WELCOME10'']"
  by code_simp

lemma duplicate_coupon_toggle:
  "coupons (toggleCouponStatus ''WELCOME10'' duplicate_coupon_state)
     = [\<lparr>code = ''WELCOME10'', discount = 10, isActive = False\<rparr>,
        \<lparr>code = ''WELCOME10'', discount = 10, isActive = False\<rparr>]"
  by code_simp

lemma duplicate_coupon_delete:
  "coupons (deleteCoupon ''WELCOME10'' duplicate_coupon_state) = []"
  by code_simp

text \<open>
  C9, the code at the failing input: with \<open>WELCOME10\<close> registered, submitting the coupon
  form with code \<open>welcome10\<close> and discount \<open>10\<close> stores the code in upper case and appends it
  without looking the registry up, so two registered coupons share one normalized code. The
  registry's own operations address a coupon by its code: one toggle then switches both
  entries and one delete removes both.
\<close>

theorem duplicate_code_registered:
  "coupons duplicate_coupon_state
     = [\<lparr>code = ''WELCOME10'', discount = 10, isActive = True\<rparr>,
        \<lparr>code = ''WELCOME10'', discount = 10, isActive = True\<rparr>]
   \<and> normalized_codes duplicate_coupon_state = [''WELCOME10'', ''WELCOME10'']
   \<and> \<not> distinct (normalized_codes duplicate_coupon_state)
   \<and> coupons (toggleCouponStatus ''WELCOME10'' duplicate_coupon_state)
     = [\<lparr>code = ''WELCOME10'', discount = 10, isActive = False\<rparr>,
        \<lparr>code = ''WELCOME10'', discount = 10, isActive = False\<rparr>]
   \<and> coupons (deleteCoupon ''WELCOME10'' duplicate_coupon_state) = []"
  by (simp add: duplicate_coupon_registry duplicate_coupon_codes duplicate_coupon_toggle
        duplicate_coupon_delete)

lemma updateOrderStatus_totals:
  "map order_total (orders (updateOrderStatus i st s)) = map order_total (orders s)"
  by (induction "orders s" arbitrary: s) (simp_all add: updateOrderStatus_def comp_def if_distrib cong: if_cong)

lemma step_counters_unchanged:
  "(\<forall>newId now. a \<noteq> Checkout newId now) \<Longrightarrow>
   revenue (step toNumber a s) = revenue s \<and> totalOrders (step toNumber a s) = totalOrders s"
  by (cases a)
     (simp_all add: addToCart_def bounceTimeout_def
        removeFromCart_def updateQuantity_def checkoutTimeout_def
        updateOrderStatus_def customerReturn_def setCouponInput_def handleApplyCoupon_unfold
        removeAppliedCoupon_def setNewCouponCode_def setNewCouponDiscount_def
        handleAddCoupon_def toggleCouponStatus_def deleteCoupon_def toggleWishlist_def
        deleteProduct_def Let_def split: option.split)

lemma step_ledger_unchanged:
  "(\<forall>newId now. a \<noteq> Checkout newId now) \<Longrightarrow>
   map order_total (orders (step toNumber a s)) = map order_total (orders s)"
  by (cases a)
     (simp_all add: addToCart_def bounceTimeout_def
        removeFromCart_def updateQuantity_def checkoutTimeout_def
        updateOrderStatus_totals customerReturn_def setCouponInput_def handleApplyCoupon_unfold
        removeAppliedCoupon_def setNewCouponCode_def setNewCouponDiscount_def
        handleAddCoupon_def toggleCouponStatus_def deleteCoupon_def toggleWishlist_def
        deleteProduct_def Let_def split: option.split)

lemma run64_Nil: "run64 toNumber [] s = Some s"
  by (simp add: run64_def)

lemma foldl_bind_None:
  "foldl (\<lambda>st a. Option.bind st (f a)) None acts = None"
  by (induction acts) simp_all

lemma run64_Cons:
  "run64 toNumber (a # acts) s = Option.bind (step64 toNumber a s) (run64 toNumber acts)"
proof (cases "step64 toNumber a s")
  case None
  then show ?thesis by (simp add: run64_def foldl_bind_None)
next
  case (Some s')
  then show ?thesis by (simp add: run64_def)
qed

lemma step64_other:
  "(\<forall>i d. a \<noteq> Checkout i d) \<Longrightarrow> step64 toNumber a s = Some (step toNumber a s)"
  by (cases a) simp_all

lemma run64_prefix:
  "\<forall>a\<in>set pre. \<forall>i d. a \<noteq> Checkout i d
   \<Longrightarrow> run64 toNumber (pre @ acts) s = run64 toNumber acts (run toNumber pre s)"
proof (induction pre arbitrary: s)
  case Nil
  show ?case by (simp add: run_Nil)
next
  case (Cons a pre)
  then have n: "\<forall>i d. a \<noteq> Checkout i d" and rest: "\<forall>a\<in>set pre. \<forall>i d. a \<noteq> Checkout i d"
    by simp_all
  from step64_other [OF n] Cons.IH [OF rest] show ?case
    by (simp add: run64_Cons run_Cons)
qed

lemma checkout64_nonempty:
  assumes ne: "cart s \<noteq> []" and c: "checkout64 newId now s = Some s'"
  shows "\<exists>t. cartTotal64 s = Some t
           \<and> orders s' = \<lparr>order_id = newId, date = now, items = cart s,
                            order_total = t, status = Pending\<rparr> # orders s
           \<and> fadd (revenue s) t = Some (revenue s')
           \<and> fadd (totalOrders s) 1 = Some (totalOrders s')
           \<and> cart s' = []"
proof -
  from ne c obtain t where t: "cartTotal64 s = Some t"
    by (cases "cartTotal64 s") (simp_all add: checkout64_def)
  from ne c t obtain r where r: "fadd (revenue s) t = Some r"
    by (cases "fadd (revenue s) t") (simp_all add: checkout64_def)
  from ne c t r obtain n where n: "fadd (totalOrders s) 1 = Some n"
    by (cases "fadd (totalOrders s) 1") (simp_all add: checkout64_def)
  from ne c t r n
  have "s' = s\<lparr>orders := \<lparr>order_id = newId, date = now, items = cart s,
                             order_total = t, status = Pending\<rparr> # orders s,
                 revenue := r, totalOrders := n, showCheckoutSuccess := True, cart := []\<rparr>"
    by (simp add: checkout64_def)
  with t r n show ?thesis by simp
qed

lemma ledger_sum64_Cons:
  "ledger_sum64 (order # os)
     = Option.bind (ledger_sum64 os) (\<lambda>r. fadd r (order_total order))"
  by (simp add: ledger_sum64_def)

lemma ledger_count64_Cons:
  "ledger_count64 (order # os) = Option.bind (ledger_count64 os) (\<lambda>n. fadd n 1)"
  by (simp add: ledger_count64_def)

lemma ledger64_totals_only:
  "map order_total os = map order_total os'
   \<Longrightarrow> ledger_sum64 os = ledger_sum64 os' \<and> ledger_count64 os = ledger_count64 os'"
  by (simp add: ledger_sum64_def ledger_count64_def)

lemma step64_ledger:
  assumes inv: "ledger_sum64 (orders s) = Some (revenue s)
                \<and> ledger_count64 (orders s) = Some (totalOrders s)"
    and st: "step64 toNumber a s = Some s'"
  shows "ledger_sum64 (orders s') = Some (revenue s')
         \<and> ledger_count64 (orders s') = Some (totalOrders s')"
proof (cases "\<exists>i d. a = Checkout i d")
  case True
  then obtain i d where a: "a = Checkout i d" by blast
  with st have c: "checkout64 i d s = Some s'" by simp
  show ?thesis
  proof (cases "cart s = []")
    case True
    with c have "s' = s" by (simp add: checkout64_def)
    with inv show ?thesis by simp
  next
    case False
    from checkout64_nonempty [OF False c] inv show ?thesis
      by (auto simp: ledger_sum64_Cons ledger_count64_Cons)
  qed
next
  case False
  then have n: "\<forall>i d. a \<noteq> Checkout i d" by simp
  from step64_other [OF n] st have s': "s' = step toNumber a s" by simp
  from step_counters_unchanged [OF n, of toNumber s]
    step_ledger_unchanged [OF n, of toNumber s]
    ledger64_totals_only [of "orders (step toNumber a s)" "orders s"] inv
  show ?thesis unfolding s' by simp
qed

lemma run64_ledger:
  assumes "ledger_sum64 (orders s) = Some (revenue s)
           \<and> ledger_count64 (orders s) = Some (totalOrders s)"
    and "run64 toNumber acts s = Some s'"
  shows "ledger_sum64 (orders s') = Some (revenue s')
         \<and> ledger_count64 (orders s') = Some (totalOrders s')"
  using assms
proof (induction acts arbitrary: s)
  case Nil
  then show ?case by (simp add: run64_Nil)
next
  case (Cons a acts)
  from Cons.prems(2) obtain s1 where s1: "step64 toNumber a s = Some s1"
    and r: "run64 toNumber acts s1 = Some s'"
    by (cases "step64 toNumber a s") (simp_all add: run64_Cons)
  from step64_ledger [OF Cons.prems(1) s1] r show ?case
    by (rule Cons.IH)
qed

lemma ledger_count64_exact:
  "of_nat (length os) \<le> (2::rat) ^ 53 \<Longrightarrow> ledger_count64 os = Some (of_nat (length os))"
proof (induction os)
  case Nil
  show ?case by (simp add: ledger_count64_def)
next
  case (Cons order os)
  from Cons.prems have le: "(of_nat (Suc (length os)) :: rat) \<le> 2 ^ 53" by simp
  then have "(of_nat (length os) :: rat) \<le> 2 ^ 53" by simp
  with Cons.IH have ih: "ledger_count64 os = Some (of_nat (length os))" by simp
  have "fadd (of_nat (length os)) 1 = round64 (of_nat (Suc (length os)))"
    unfolding fadd_def by (rule arg_cong [where f = round64]) simp
  also have "\<dots> = Some (of_nat (Suc (length os)))"
    using le by (rule round64_of_nat)
  finally show ?case
    by (simp add: ledger_count64_Cons ih)
qed

lemma ledger_sum64_exact:
  assumes "\<forall>order\<in>set os. order_total order \<in> \<nat>"
    and "sum_list (map order_total os) \<le> 2 ^ 53"
  shows "ledger_sum64 os = Some (sum_list (map order_total os))"
  using assms
proof (induction os)
  case Nil
  show ?case by (simp add: ledger_sum64_def)
next
  case (Cons order os)
  from Cons.prems(1) have t: "order_total order \<in> \<nat>"
    and rest: "\<forall>order\<in>set os. order_total order \<in> \<nat>"
    by simp_all
  have restN: "sum_list (map order_total os) \<in> \<nat>"
    using rest by (induction os) simp_all
  from t have t0: "0 \<le> order_total order" by (rule Nats_nonneg)
  with Cons.prems(2) have "sum_list (map order_total os) \<le> 2 ^ 53" by simp
  with Cons.IH rest have ih: "ledger_sum64 os = Some (sum_list (map order_total os))"
    by simp
  from restN t have "sum_list (map order_total os) + order_total order \<in> \<nat>"
    by (rule Nats_add)
  moreover from Cons.prems(2)
  have "sum_list (map order_total os) + order_total order \<le> 2 ^ 53"
    by (simp add: add.commute)
  ultimately have "fadd (sum_list (map order_total os)) (order_total order)
                     = Some (sum_list (map order_total os) + order_total order)"
    by (simp add: fadd_def round64_Nats)
  then show ?case
    by (simp add: ledger_sum64_Cons ih add.commute)
qed

text \<open>
  C10, as the code has it: a checkout on a non-empty cart puts one order in front of the
  ledger, sets \<open>revenue\<close> to the binary64 sum of the previous revenue and that order's total
  and \<open>totalOrders\<close> to the previous count plus 1; every other action, status changes
  included, leaves both counters and every order's total as they are. Hence, after any
  sequence of actions from the initial state that keeps the values finite, \<open>revenue\<close> is the
  totals of all orders placed added one by one in order of placement in binary64, which is
  their exact sum when the totals are non-negative integers with a sum of at most \<open>2^53\<close>,
  and \<open>totalOrders\<close> is their number as long as that is at most \<open>2^53\<close>. A checkout whose
  total is not finite leaves the finite values this model covers.
\<close>

theorem revenue_is_binary64_ledger_sum:
  "(cart s \<noteq> [] \<and> checkout64 newId now s = Some s'
     \<longrightarrow> (\<exists>t. cartTotal64 s = Some t
            \<and> orders s' = \<lparr>order_id = newId, date = now, items = cart s,
                             order_total = t, status = Pending\<rparr> # orders s
            \<and> fadd (revenue s) t = Some (revenue s')
            \<and> fadd (totalOrders s) 1 = Some (totalOrders s')))
   \<and> (cart s \<noteq> [] \<and> cartTotal64 s = Some t \<and> fadd (revenue s) t = Some r
        \<and> fadd (totalOrders s) 1 = Some n
     \<longrightarrow> checkout64 newId now s
          = Some (s\<lparr>orders := \<lparr>order_id = newId, date = now, items = cart s,
                                   order_total = t, status = Pending\<rparr> # orders s,
                     revenue := r, totalOrders := n, showCheckoutSuccess := True,
                     cart := []\<rparr>))
   \<and> (cart s = [] \<longrightarrow> checkout64 newId now s = Some s)
   \<and> (cart s \<noteq> [] \<and> cartTotal64 s = None \<longrightarrow> checkout64 newId now s = None)
   \<and> ((\<forall>i d. a \<noteq> Checkout i d)
     \<longrightarrow> step64 toNumber a s = Some (step toNumber a s)
         \<and> revenue (step toNumber a s) = revenue s
         \<and> totalOrders (step toNumber a s) = totalOrders s
         \<and> map order_total (orders (step toNumber a s)) = map order_total (orders s))
   \<and> (run64 toNumber acts initial_state = Some s''
     \<longrightarrow> ledger_sum64 (orders s'') = Some (revenue s'')
         \<and> ledger_count64 (orders s'') = Some (totalOrders s'')
         \<and> (of_nat (length (orders s'')) \<le> (2::rat) ^ 53
              \<longrightarrow> totalOrders s'' = of_nat (length (orders s'')))
         \<and> ((\<forall>order\<in>set (orders s''). order_total order \<in> \<nat>)
                \<and> sum_list (map order_total (orders s'')) \<le> 2 ^ 53
              \<longrightarrow> revenue s'' = sum_list (map order_total (orders s''))))"
proof -
  have placed: "\<exists>t. cartTotal64 s = Some t
            \<and> orders s' = \<lparr>order_id = newId, date = now, items = cart s,
                             order_total = t, status = Pending\<rparr> # orders s
            \<and> fadd (revenue s) t = Some (revenue s')
            \<and> fadd (totalOrders s) 1 = Some (totalOrders s')"
    if "cart s \<noteq> [] \<and> checkout64 newId now s = Some s'"
    using that checkout64_nonempty [of s newId now s'] by blast
  have returns: "checkout64 newId now s
          = Some (s\<lparr>orders := \<lparr>order_id = newId, date = now, items = cart s,
                                   order_total = t, status = Pending\<rparr> # orders s,
                     revenue := r, totalOrders := n, showCheckoutSuccess := True,
                     cart := []\<rparr>)"
    if "cart s \<noteq> [] \<and> cartTotal64 s = Some t \<and> fadd (revenue s) t = Some r
        \<and> fadd (totalOrders s) 1 = Some n"
    using that by (simp add: checkout64_def)
  have empty: "checkout64 newId now s = Some s" if "cart s = []"
    using that by (simp add: checkout64_def)
  have not_finite: "checkout64 newId now s = None" if "cart s \<noteq> [] \<and> cartTotal64 s = None"
    using that by (simp add: checkout64_def)
  have other: "step64 toNumber a s = Some (step toNumber a s)
         \<and> revenue (step toNumber a s) = revenue s
         \<and> totalOrders (step toNumber a s) = totalOrders s
         \<and> map order_total (orders (step toNumber a s)) = map order_total (orders s)"
    if n: "\<forall>i d. a \<noteq> Checkout i d"
    using step64_other [OF n] step_counters_unchanged [OF n] step_ledger_unchanged [OF n]
    by blast
  have ledger: "ledger_sum64 (orders s'') = Some (revenue s'')
         \<and> ledger_count64 (orders s'') = Some (totalOrders s'')
         \<and> (of_nat (length (orders s'')) \<le> (2::rat) ^ 53
              \<longrightarrow> totalOrders s'' = of_nat (length (orders s'')))
         \<and> ((\<forall>order\<in>set (orders s''). order_total order \<in> \<nat>)
                \<and> sum_list (map order_total (orders s'')) \<le> 2 ^ 53
              \<longrightarrow> revenue s'' = sum_list (map order_total (orders s'')))"
    if r: "run64 toNumber acts initial_state = Some s''"
  proof -
    have i: "ledger_sum64 (orders initial_state) = Some (revenue initial_state)
             \<and> ledger_count64 (orders initial_state) = Some (totalOrders initial_state)"
      by (simp add: initial_state_def ledger_sum64_def ledger_count64_def)
    from run64_ledger [OF i r]
    have inv: "ledger_sum64 (orders s'') = Some (revenue s'')"
      and cnt: "ledger_count64 (orders s'') = Some (totalOrders s'')"
      by simp_all
    have c: "totalOrders s'' = of_nat (length (orders s''))"
      if "of_nat (length (orders s'')) \<le> (2::rat) ^ 53"
      using ledger_count64_exact [OF that] cnt by simp
    have e: "revenue s'' = sum_list (map order_total (orders s''))"
      if "(\<forall>order\<in>set (orders s''). order_total order \<in> \<nat>)
                \<and> sum_list (map order_total (orders s'')) \<le> 2 ^ 53"
      using ledger_sum64_exact [of "orders s''"] that inv by simp
    from inv cnt c e show ?thesis by blast
  qed
  from placed returns empty not_finite other ledger show ?thesis by blast
qed

lemma two_orders_state64_eval:
  "two_orders_state64
   = Some (initial_state\<lparr>isCartBouncing := True,
       orders := [\<lparr>order_id = ''ORD-7HB2M4ZP1'', date = ''2/1/2026, 9:30:00 AM'',
            items = [\<lparr>pid = 2, name = ''Minimalist Leather Watch'', price = 4500,
            image_url = ''https://picsum.photos/seed/watch/400/400'',
            category = ''Accessories'', quantity = 1\<rparr>],
            order_total = 4500, status = Pending\<rparr>,
                  \<lparr>order_id = ''ORD-K3J9X0Q2A'', date = ''1/1/2026, 10:00:00 AM'',
            items = [\<lparr>pid = 1, name = ''Premium Wireless Headphones'', price = 12999,
            image_url = ''https://picsum.photos/seed/headphones/400/400'',
            category = ''Electronics'', quantity = 1\<rparr>],
            order_total = 12999, status = Returned\<rparr>],
       revenue := 17499, totalOrders := 2, showCheckoutSuccess := True, cart := []\<rparr>)"
proof -
  let ?T1 = "initial_state\<lparr>isCartBouncing := True, cart := [\<lparr>pid = 1, name = ''Premium Wireless Headphones'', price = 12999,
            image_url = ''https://picsum.photos/seed/headphones/400/400'',
            category = ''Electronics'', quantity = 1\<rparr>]\<rparr>"
  let ?T2 = "initial_state\<lparr>isCartBouncing := True,
       orders := [\<lparr>order_id = ''ORD-K3J9X0Q2A'', date = ''1/1/2026, 10:00:00 AM'',
            items = [\<lparr>pid = 1, name = ''Premium Wireless Headphones'', price = 12999,
            image_url = ''https://picsum.photos/seed/headphones/400/400'',
            category = ''Electronics'', quantity = 1\<rparr>],
            order_total = 12999, status = Pending\<rparr>],
       revenue := 12999, totalOrders := 1, showCheckoutSuccess := True, cart := []\<rparr>"
  let ?T3 = "initial_state\<lparr>isCartBouncing := True,
       orders := [\<lparr>order_id = ''ORD-K3J9X0Q2A'', date = ''1/1/2026, 10:00:00 AM'',
            items = [\<lparr>pid = 1, name = ''Premium Wireless Headphones'', price = 12999,
            image_url = ''https://picsum.photos/seed/headphones/400/400'',
            category = ''Electronics'', quantity = 1\<rparr>],
            order_total = 12999, status = Pending\<rparr>],
       revenue := 12999, totalOrders := 1, showCheckoutSuccess := True, cart := [\<lparr>pid = 2, name = ''Minimalist Leather Watch'', price = 4500,
            image_url = ''https://picsum.photos/seed/watch/400/400'',
            category = ''Accessories'', quantity = 1\<rparr>]\<rparr>"
  let ?T4 = "initial_state\<lparr>isCartBouncing := True,
       orders := [\<lparr>order_id = ''ORD-7HB2M4ZP1'', date = ''2/1/2026, 9:30:00 AM'',
            items = [\<lparr>pid = 2, name = ''Minimalist Leather Watch'', price = 4500,
            image_url = ''https://picsum.photos/seed/watch/400/400'',
            category = ''Accessories'', quantity = 1\<rparr>],
            order_total = 4500, status = Pending\<rparr>,
                  \<lparr>order_id = ''ORD-K3J9X0Q2A'', date = ''1/1/2026, 10:00:00 AM'',
            items = [\<lparr>pid = 1, name = ''Premium Wireless Headphones'', price = 12999,
            image_url = ''https://picsum.photos/seed/headphones/400/400'',
            category = ''Electronics'', quantity = 1\<rparr>],
            order_total = 12999, status = Pending\<rparr>],
       revenue := 17499, totalOrders := 2, showCheckoutSuccess := True, cart := []\<rparr>"
  let ?T5 = "initial_state\<lparr>isCartBouncing := True,
       orders := [\<lparr>order_id = ''ORD-7HB2M4ZP1'', date = ''2/1/2026, 9:30:00 AM'',
            items = [\<lparr>pid = 2, name = ''Minimalist Leather Watch'', price = 4500,
            image_url = ''https://picsum.photos/seed/watch/400/400'',
            category = ''Accessories'', quantity = 1\<rparr>],
            order_total = 4500, status = Pending\<rparr>,
                  \<lparr>order_id = ''ORD-K3J9X0Q2A'', date = ''1/1/2026, 10:00:00 AM'',
            items = [\<lparr>pid = 1, name = ''Premium Wireless Headphones'', price = 12999,
            image_url = ''https://picsum.photos/seed/headphones/400/400'',
            category = ''Electronics'', quantity = 1\<rparr>],
            order_total = 12999, status = Delivered\<rparr>],
       revenue := 17499, totalOrders := 2, showCheckoutSuccess := True, cart := []\<rparr>"
  let ?T6 = "initial_state\<lparr>isCartBouncing := True,
       orders := [\<lparr>order_id = ''ORD-7HB2M4ZP1'', date = ''2/1/2026, 9:30:00 AM'',
            items = [\<lparr>pid = 2, name = ''Minimalist Leather Watch'', price = 4500,
            image_url = ''https://picsum.photos/seed/watch/400/400'',
            category = ''Accessories'', quantity = 1\<rparr>],
            order_total = 4500, status = Pending\<rparr>,
                  \<lparr>order_id = ''ORD-K3J9X0Q2A'', date = ''1/1/2026, 10:00:00 AM'',
            items = [\<lparr>pid = 1, name = ''Premium Wireless Headphones'', price = 12999,
            image_url = ''https://picsum.photos/seed/headphones/400/400'',
            category = ''Electronics'', quantity = 1\<rparr>],
            order_total = 12999, status = Returned\<rparr>],
       revenue := 17499, totalOrders := 2, showCheckoutSuccess := True, cart := []\<rparr>"
  have a1: "addToCart (INITIAL_PRODUCTS ! 0) initial_state = ?T1"
    by (simp add: addToCart_def initial_state_def INITIAL_PRODUCTS_def)
  have c1: "checkout64 ''ORD-K3J9X0Q2A'' ''1/1/2026, 10:00:00 AM'' ?T1 = Some ?T2"
    by (simp add: checkout64_def cartTotal64_def subtotal64_def discountAmount64_def
          initial_state_def fmul_def fadd_def fdiv_def fsub_def)
  have a2: "addToCart (INITIAL_PRODUCTS ! 1) ?T2 = ?T3"
    by (simp add: addToCart_def initial_state_def INITIAL_PRODUCTS_def)
  have c2: "checkout64 ''ORD-7HB2M4ZP1'' ''2/1/2026, 9:30:00 AM'' ?T3 = Some ?T4"
    by (simp add: checkout64_def cartTotal64_def subtotal64_def discountAmount64_def
          initial_state_def fmul_def fadd_def fdiv_def fsub_def)
  have u: "updateOrderStatus ''ORD-K3J9X0Q2A'' Delivered ?T4 = ?T5"
    by (simp add: updateOrderStatus_def initial_state_def)
  have r: "customerReturn 1 ?T5 = ?T6"
    by (simp add: customerReturn_def updateOrderStatus_def initial_state_def)
  show ?thesis
    unfolding two_orders_state64_def
    by (simp only: run64_Cons run64_Nil step64.simps step.simps a1 c1 a2 c2 u r
          Option.bind.simps)
qed

theorem revenue_is_binary64_ledger_sum_witness:
  "two_orders_state64 \<noteq> None
   \<and> revenue (the two_orders_state64) = 17499
   \<and> totalOrders (the two_orders_state64) = 2
   \<and> map status (orders (the two_orders_state64)) = [Pending, Returned]
   \<and> revenue (step decimalNumber (AdminSetStatus ''ORD-K3J9X0Q2A'' Returned)
                 (the two_orders_state64)) = 17499
   \<and> checkout64 ''ORD-7HB2M4ZP1'' ''2/1/2026, 9:30:00 AM'' overflow_state = None"
proof -
  let ?s = "the two_orders_state64"
  have some: "run64 decimalNumber
       [AddToCart (INITIAL_PRODUCTS ! 0), Checkout ''ORD-K3J9X0Q2A'' ''1/1/2026, 10:00:00 AM'',
        AddToCart (INITIAL_PRODUCTS ! 1), Checkout ''ORD-7HB2M4ZP1'' ''2/1/2026, 9:30:00 AM'',
        AdminSetStatus ''ORD-K3J9X0Q2A'' Delivered, CustomerReturn 1]
       initial_state = Some ?s"
    unfolding two_orders_state64_def [symmetric] by (simp add: two_orders_state64_eval)
  have totals: "map order_total (orders ?s) = [4500, 12999]"
    and st: "map status (orders ?s) = [Pending, Returned]"
    by (simp_all add: two_orders_state64_eval)
  have nat: "(\<forall>order\<in>set (orders ?s). order_total order \<in> \<nat>)
             \<and> sum_list (map order_total (orders ?s)) \<le> 2 ^ 53"
    by (simp add: two_orders_state64_eval)
  have len: "of_nat (length (orders ?s)) \<le> (2::rat) ^ 53"
    by (simp add: two_orders_state64_eval)
  have n: "\<forall>i d. AdminSetStatus ''ORD-K3J9X0Q2A'' Returned \<noteq> Checkout i d"
    by simp
  note T = revenue_is_binary64_ledger_sum
      [where toNumber = decimalNumber and s'' = ?s and s = ?s
         and a = "AdminSetStatus ''ORD-K3J9X0Q2A'' Returned"
         and acts = "[AddToCart (INITIAL_PRODUCTS ! 0),
                      Checkout ''ORD-K3J9X0Q2A'' ''1/1/2026, 10:00:00 AM'',
                      AddToCart (INITIAL_PRODUCTS ! 1),
                      Checkout ''ORD-7HB2M4ZP1'' ''2/1/2026, 9:30:00 AM'',
                      AdminSetStatus ''ORD-K3J9X0Q2A'' Delivered, CustomerReturn 1]"]
  from T some nat have rev: "revenue ?s = sum_list (map order_total (orders ?s))"
    by blast
  from T some len have cnt: "totalOrders ?s = of_nat (length (orders ?s))"
    by blast
  from T n have adm: "revenue (step decimalNumber (AdminSetStatus ''ORD-K3J9X0Q2A'' Returned) ?s)
                       = revenue ?s"
    by blast
  have l2: "length (orders ?s) = 2"
    using arg_cong [OF totals, of length] by simp
  have r: "revenue ?s = 17499"
    unfolding rev totals by simp
  have c: "totalOrders ?s = 2"
    unfolding cnt l2 by simp
  have ne: "two_orders_state64 \<noteq> None"
    by (simp add: two_orders_state64_eval)
  have oc: "cart overflow_state \<noteq> [] \<and> cartTotal64 overflow_state = None"
    by (simp add: overflow_cart overflow_cartTotal64)
  from revenue_is_binary64_ledger_sum
      [where s = overflow_state and newId = "''ORD-7HB2M4ZP1''"
         and now = "''2/1/2026, 9:30:00 AM''"] oc
  have ov: "checkout64 ''ORD-7HB2M4ZP1'' ''2/1/2026, 9:30:00 AM'' overflow_state = None"
    by blast
  from ne r c st adm ov show ?thesis by simp
qed

lemma coupon_cart_state:
  "run decimalNumber
     [SetCouponInput ''WELCOME10'', HandleApplyCoupon, AddToCart (INITIAL_PRODUCTS ! 0)]
     initial_state
   = initial_state\<lparr>isCartBouncing := True,
       appliedCoupon := Some \<lparr>code = ''WELCOME10'', discount = 10, isActive = True\<rparr>,
       cart := [\<lparr>pid = 1, name = ''Premium Wireless Headphones'', price = 12999,
                  image_url = ''https://picsum.photos/seed/headphones/400/400'',
                  category = ''Electronics'', quantity = 1\<rparr>]\<rparr>"
  by code_simp

lemma coupon_orders_state64_eval:
  "coupon_orders_state64
   = Some (initial_state\<lparr>isCartBouncing := True, appliedCoupon := Some \<lparr>code = ''WELCOME10'', discount = 10, isActive = True\<rparr>,
       orders := [\<lparr>order_id = ''ORD-7HB2M4ZP1'', date = ''2/1/2026, 9:30:00 AM'',
            items = [\<lparr>pid = 4, name = ''Ergonomic Coffee Mug'', price = 899,
            image_url = ''https://picsum.photos/seed/mug/400/400'',
            category = ''Home'', quantity = 1\<rparr>],
            order_total = 7116918864268493 / 8796093022208, status = Pending\<rparr>,
                  \<lparr>order_id = ''ORD-K3J9X0Q2A'', date = ''1/1/2026, 10:00:00 AM'',
            items = [\<lparr>pid = 1, name = ''Premium Wireless Headphones'', price = 12999,
            image_url = ''https://picsum.photos/seed/headphones/400/400'',
            category = ''Electronics'', quantity = 1\<rparr>],
            order_total = 6431648242257101 / 549755813888, status = Pending\<rparr>],
       revenue := 3438227835636941 / 274877906944, totalOrders := 2,
       showCheckoutSuccess := True, cart := []\<rparr>)"
proof -
  let ?S1 = "initial_state\<lparr>isCartBouncing := True, appliedCoupon := Some \<lparr>code = ''WELCOME10'', discount = 10, isActive = True\<rparr>, cart := [\<lparr>pid = 1, name = ''Premium Wireless Headphones'', price = 12999,
            image_url = ''https://picsum.photos/seed/headphones/400/400'',
            category = ''Electronics'', quantity = 1\<rparr>]\<rparr>"
  let ?S2 = "initial_state\<lparr>isCartBouncing := True, appliedCoupon := Some \<lparr>code = ''WELCOME10'', discount = 10, isActive = True\<rparr>,
       orders := [\<lparr>order_id = ''ORD-K3J9X0Q2A'', date = ''1/1/2026, 10:00:00 AM'',
            items = [\<lparr>pid = 1, name = ''Premium Wireless Headphones'', price = 12999,
            image_url = ''https://picsum.photos/seed/headphones/400/400'',
            category = ''Electronics'', quantity = 1\<rparr>],
            order_total = 6431648242257101 / 549755813888, status = Pending\<rparr>],
       revenue := 6431648242257101 / 549755813888, totalOrders := 1,
       showCheckoutSuccess := True, cart := []\<rparr>"
  let ?S3 = "initial_state\<lparr>isCartBouncing := True, appliedCoupon := Some \<lparr>code = ''WELCOME10'', discount = 10, isActive = True\<rparr>,
       orders := [\<lparr>order_id = ''ORD-K3J9X0Q2A'', date = ''1/1/2026, 10:00:00 AM'',
            items = [\<lparr>pid = 1, name = ''Premium Wireless Headphones'', price = 12999,
            image_url = ''https://picsum.photos/seed/headphones/400/400'',
            category = ''Electronics'', quantity = 1\<rparr>],
            order_total = 6431648242257101 / 549755813888, status = Pending\<rparr>],
       revenue := 6431648242257101 / 549755813888, totalOrders := 1,
       showCheckoutSuccess := True, cart := [\<lparr>pid = 4, name = ''Ergonomic Coffee Mug'', price = 899,
            image_url = ''https://picsum.photos/seed/mug/400/400'',
            category = ''Home'', quantity = 1\<rparr>]\<rparr>"
  let ?S4 = "initial_state\<lparr>isCartBouncing := True, appliedCoupon := Some \<lparr>code = ''WELCOME10'', discount = 10, isActive = True\<rparr>,
       orders := [\<lparr>order_id = ''ORD-7HB2M4ZP1'', date = ''2/1/2026, 9:30:00 AM'',
            items = [\<lparr>pid = 4, name = ''Ergonomic Coffee Mug'', price = 899,
            image_url = ''https://picsum.photos/seed/mug/400/400'',
            category = ''Home'', quantity = 1\<rparr>],
            order_total = 7116918864268493 / 8796093022208, status = Pending\<rparr>,
                  \<lparr>order_id = ''ORD-K3J9X0Q2A'', date = ''1/1/2026, 10:00:00 AM'',
            items = [\<lparr>pid = 1, name = ''Premium Wireless Headphones'', price = 12999,
            image_url = ''https://picsum.photos/seed/headphones/400/400'',
            category = ''Electronics'', quantity = 1\<rparr>],
            order_total = 6431648242257101 / 549755813888, status = Pending\<rparr>],
       revenue := 3438227835636941 / 274877906944, totalOrders := 2,
       showCheckoutSuccess := True, cart := []\<rparr>"
  have c1: "checkout64 ''ORD-K3J9X0Q2A'' ''1/1/2026, 10:00:00 AM'' ?S1 = Some ?S2"
    by (simp add: checkout64_def cartTotal64_def subtotal64_def discountAmount64_def
          initial_state_def fmul_def fadd_def fdiv_def fsub_def
          round64_headphones_discount round64_headphones_total round64_headphones_revenue)
  have a2: "addToCart (INITIAL_PRODUCTS ! 3) ?S2 = ?S3"
    by (simp add: addToCart_def initial_state_def INITIAL_PRODUCTS_def)
  have c2: "checkout64 ''ORD-7HB2M4ZP1'' ''2/1/2026, 9:30:00 AM'' ?S3 = Some ?S4"
    by (simp add: checkout64_def cartTotal64_def subtotal64_def discountAmount64_def
          initial_state_def fmul_def fadd_def fdiv_def fsub_def
          round64_mug_discount round64_mug_total round64_two_orders_revenue)
  have "coupon_orders_state64
        = run64 decimalNumber
            ([SetCouponInput ''WELCOME10'', HandleApplyCoupon, AddToCart (INITIAL_PRODUCTS ! 0)]
             @ [Checkout ''ORD-K3J9X0Q2A'' ''1/1/2026, 10:00:00 AM'',
                AddToCart (INITIAL_PRODUCTS ! 3),
                Checkout ''ORD-7HB2M4ZP1'' ''2/1/2026, 9:30:00 AM''])
            initial_state"
    by (simp add: coupon_orders_state64_def)
  also have "\<dots> = run64 decimalNumber
             [Checkout ''ORD-K3J9X0Q2A'' ''1/1/2026, 10:00:00 AM'',
              AddToCart (INITIAL_PRODUCTS ! 3),
              Checkout ''ORD-7HB2M4ZP1'' ''2/1/2026, 9:30:00 AM''] ?S1"
    unfolding coupon_cart_state [symmetric] by (rule run64_prefix) simp
  also have "\<dots> = Some ?S4"
    by (simp only: run64_Cons run64_Nil step64.simps step.simps c1 a2 c2 Option.bind.simps)
  finally show ?thesis .
qed

text \<open>
  C10 as stated fails: after the orders with totals 11699.1 and 809.1 the revenue is the
  binary64 value 12508.2, which is not the sum of the two stored totals, so the second
  checkout did not raise the revenue by exactly its order's total.
\<close>

theorem revenue_not_exact_sum_counterexample:
  "coupon_orders_state64 \<noteq> None
   \<and> map order_total (orders (the coupon_orders_state64))
     = [7116918864268493 / 8796093022208, 6431648242257101 / 549755813888]
   \<and> revenue (the coupon_orders_state64) = 3438227835636941 / 274877906944
   \<and> revenue (the coupon_orders_state64)
     \<noteq> sum_list (map order_total (orders (the coupon_orders_state64)))
   \<and> totalOrders (the coupon_orders_state64) = 2"
  by (simp add: coupon_orders_state64_eval)

end
